theory Spec2Isabelle
  imports Complex_Main "HOL-Library.Word"
begin

section \<open>Data model of the convolution engine\<close>

text \<open>
  The unsigned size type \<open>dip::uint\<close> (\<open>std::size_t\<close>) and the signed type
  \<open>dip::sint\<close> (\<open>std::ptrdiff_t\<close>) are 64-bit machine integers. Both are words;
  a signed value is read with \<open>sint\<close>, an unsigned one with \<open>unat\<close>. The cast
  between the two keeps the bits.
\<close>

type_synonym dip_uint = "64 word"
type_synonym dip_sint = "64 word"

datatype FilterSymmetry = GENERAL | EVEN | ODD | D_EVEN | D_ODD

text \<open>Every error the functions of \<open>convolution.cpp\<close> throw themselves.\<close>

datatype error =
    SymmetryStringNotRecognized string
  | OriginOutsideOfFilter
  | IMAGE_NOT_FORGED
  | DIMENSIONALITY_NOT_SUPPORTED
  | ARRAY_ILLEGAL_SIZE
  | ARRAY_PARAMETER_WRONG_LENGTH
  | SIZES_DONT_MATCH

text \<open>
  The caller's filter description \<open>OneDimensionalFilter\<close>: the coefficients, the
  signed origin (negative when unspecified) and the symmetry string.
\<close>

record OneDimensionalFilter =
  filterF :: "real list"
  originF :: dip_sint
  symmetryF :: string

text \<open>The fields of the struct \<open>InternOneDimensionalFilter\<close>.\<close>

record InternFilter =
  filterI :: "real list"
  sizeI :: dip_uint
  originI :: dip_uint
  symmetryI :: FilterSymmetry

section \<open>The filter normalizer\<close>

text \<open>
  The constructor \<open>InternOneDimensionalFilter(OneDimensionalFilter const&)\<close>. The
  member initialisers give size 0, origin 0 and GENERAL; the body only runs its
  symmetry and origin checks when the coefficient array is not empty. Each
  \<open>DIP_THROW\<close> is an \<open>Inl\<close>. All arithmetic is on \<open>dip::uint\<close> and wraps.
\<close>

definition InternOneDimensionalFilter :: "OneDimensionalFilter \<Rightarrow> error + InternFilter" where
  "InternOneDimensionalFilter inp =
    (let size0 = (word_of_nat (length (filterF inp)) :: dip_uint);
         start = \<lparr> filterI = filterF inp, sizeI = size0, originI = 0, symmetryI = GENERAL \<rparr>
     in if size0 \<noteq> 0 then
          (case (if symmetryF inp = [] \<or> symmetryF inp = ''general'' then
                   Inr (start \<lparr> symmetryI := GENERAL \<rparr>)
                 else if symmetryF inp = ''even'' then
                   Inr (start \<lparr> symmetryI := EVEN, sizeI := size0 + (size0 - 1) \<rparr>)
                 else if symmetryF inp = ''odd'' then
                   Inr (start \<lparr> symmetryI := ODD, sizeI := size0 + (size0 - 1) \<rparr>)
                 else if symmetryF inp = ''d-even'' then
                   Inr (start \<lparr> symmetryI := D_EVEN, sizeI := size0 + size0 \<rparr>)
                 else if symmetryF inp = ''d-odd'' then
                   Inr (start \<lparr> symmetryI := D_ODD, sizeI := size0 + size0 \<rparr>)
                 else Inl (SymmetryStringNotRecognized (symmetryF inp)))
           of Inl e \<Rightarrow> Inl e
            | Inr f \<Rightarrow>
                if sint (originF inp) < 0 then Inr (f \<lparr> originI := sizeI f div 2 \<rparr>)
                else if originF inp \<ge> sizeI f then Inl OriginOutsideOfFilter
                else Inr (f \<lparr> originI := originF inp \<rparr>))
        else Inr start)"

text \<open>
  The vocabulary of the specification, for comparison with the code: the five
  recognized symmetry strings (the empty string stands for an unspecified
  symmetry), and the logical size of a filter of \<open>n\<close> stored coefficients over the
  integers.
\<close>

definition recognized_symmetry :: "string \<Rightarrow> bool" where
  "recognized_symmetry s \<longleftrightarrow>
     s = [] \<or> s = ''general'' \<or> s = ''even'' \<or> s = ''odd'' \<or> s = ''d-even'' \<or> s = ''d-odd''"

definition logicalSize :: "string \<Rightarrow> nat \<Rightarrow> nat" where
  "logicalSize s n =
     (if s = ''even'' \<or> s = ''odd'' then 2 * n - 1
      else if s = ''d-even'' \<or> s = ''d-odd'' then 2 * n
      else n)"


definition symmetry_tag :: "string \<Rightarrow> FilterSymmetry" where
  "symmetry_tag s =
     (if s = ''even'' then EVEN else if s = ''odd'' then ODD
      else if s = ''d-even'' then D_EVEN else if s = ''d-odd'' then D_ODD else GENERAL)"

section \<open>The separable line filter\<close>

text \<open>
  \<open>SeparableConvolutionLineFilter<TPI>::Filter\<close>. The sample type \<open>TPI\<close> is a
  floating or complex floating type; it is modelled by any real vector space
  (\<open>real\<close>, \<open>complex\<close>), so sums are exact. The product of a coefficient, cast to
  \<open>FloatType<TPI>\<close>, with a sample is \<open>scaleR\<close>.

  The input buffer is a function from the pointer offset, counted in samples from
  \<open>params.inBuffer.buffer\<close>, to the sample stored there: the line engine has
  extended the line on both sides, so negative offsets are read too. A pointer
  into the buffer is that offset, an \<open>int\<close>. The output is the list of the samples
  written through \<open>out\<close>, in the order of the writes (one per \<open>outStride\<close>).
\<close>

record 'a SeparableLineFilterParameters =
  inBuffer :: "int \<Rightarrow> 'a"
  inLength :: nat
  inStride :: int
  dimension :: nat
  tensorToSpatial :: bool

text \<open>
  The inner loop of the GENERAL case:
  \<open>for( jj = 0; jj < filterSize; ++jj ) { sum += filter[jj] * *in_t; in_t -= inStride; }\<close>
\<close>

function general_loop ::
  "real list \<Rightarrow> (int \<Rightarrow> 'a::real_vector) \<Rightarrow> int \<Rightarrow> nat \<Rightarrow> nat \<Rightarrow> int \<Rightarrow> 'a \<Rightarrow> 'a" where
  "general_loop coeffs buf stride filterSize jj in_t acc =
     (if jj < filterSize
      then general_loop coeffs buf stride filterSize (Suc jj) (in_t - stride)
             (acc + scaleR (coeffs ! jj) (buf in_t))
      else acc)"
  by pat_completeness auto
termination
  by (relation "measure (\<lambda>(coeffs, buf, stride, filterSize, jj, in_t, acc). filterSize - jj)") auto

declare general_loop.simps [simp del]

text \<open>
  The inner loop shared by the four symmetric cases:
  \<open>while( jj > 0 ) { --jj; sum += filter[jj] * ( *in_r \<plusminus> *in_l ); in_l -= inStride; in_r += inStride; }\<close>
  The accumulator \<open>acc\<close> is the variable \<open>sum\<close>. The argument \<open>comb\<close> is the
  addition (EVEN, D_EVEN) or the subtraction (ODD, D_ODD) of the right and the
  left sample.
\<close>

fun paired_loop ::
  "('a \<Rightarrow> 'a \<Rightarrow> 'a) \<Rightarrow> real list \<Rightarrow> (int \<Rightarrow> 'a::real_vector) \<Rightarrow> int \<Rightarrow> nat \<Rightarrow> int \<Rightarrow> int \<Rightarrow> 'a \<Rightarrow> 'a" where
  "paired_loop comb coeffs buf stride 0 in_l in_r acc = acc"
| "paired_loop comb coeffs buf stride (Suc jj) in_l in_r acc =
     paired_loop comb coeffs buf stride jj (in_l - stride) (in_r + stride)
       (acc + scaleR (coeffs ! jj) (comb (buf in_r) (buf in_l)))"

text \<open>The body of the outer loop, one output sample, for each of the three shapes.\<close>

definition general_sample ::
  "real list \<Rightarrow> (int \<Rightarrow> 'a::real_vector) \<Rightarrow> int \<Rightarrow> nat \<Rightarrow> int \<Rightarrow> 'a" where
  "general_sample coeffs buf stride filterSize in_p =
     general_loop coeffs buf stride filterSize 0 in_p 0"

definition centered_sample ::
  "('a \<Rightarrow> 'a \<Rightarrow> 'a) \<Rightarrow> real list \<Rightarrow> (int \<Rightarrow> 'a::real_vector) \<Rightarrow> int \<Rightarrow> nat \<Rightarrow> int \<Rightarrow> 'a" where
  "centered_sample comb coeffs buf stride fsh in_p =
     paired_loop comb coeffs buf stride fsh (in_p - stride) (in_p + stride)
       (scaleR (coeffs ! fsh) (buf in_p))"

definition paired_sample ::
  "('a \<Rightarrow> 'a \<Rightarrow> 'a) \<Rightarrow> real list \<Rightarrow> (int \<Rightarrow> 'a::real_vector) \<Rightarrow> int \<Rightarrow> nat \<Rightarrow> int \<Rightarrow> 'a" where
  "paired_sample comb coeffs buf stride fsh in_p =
     paired_loop comb coeffs buf stride fsh (in_p - stride) in_p 0"

text \<open>
  The outer loop \<open>for( ii = 0; ii < length; ++ii ) { ...; *out = sum; in += inStride; out += outStride; }\<close>:
  the first argument computes one sample from the current value of \<open>in\<close>.
\<close>

fun line_loop :: "(int \<Rightarrow> 'a) \<Rightarrow> int \<Rightarrow> nat \<Rightarrow> int \<Rightarrow> 'a list" where
  "line_loop body stride 0 in_p = []"
| "line_loop body stride (Suc n) in_p = body in_p # line_loop body stride n (in_p + stride)"

text \<open>
  \<open>Filter\<close> itself. Reading the member \<open>filter_\<close> (here \<open>filters\<close>) or the coefficient array out of range, and
  the failing \<open>DIP_ASSERT\<close>, are \<open>None\<close>. \<open>fsh\<close> is \<open>filter.size() - 1\<close> on
  \<open>dip::uint\<close>; \<open>origin - fsh\<close> wraps there and is then read as signed.
\<close>

definition Filter ::
  "InternFilter list \<Rightarrow> ('a::real_vector) SeparableLineFilterParameters \<Rightarrow> 'a list option" where
  "Filter filters params =
    (case (if length filters > 1 then
             (if tensorToSpatial params then
                (if dimension params > 0 then Some (dimension params - 1) else None)
              else Some (dimension params))
           else Some 0)
     of None \<Rightarrow> None
      | Some procDim \<Rightarrow>
          if procDim \<ge> length filters then None
          else
            let coeffs = filterI (filters ! procDim);
                origin = originI (filters ! procDim);
                filterSize = sizeI (filters ! procDim);
                fsh = (word_of_nat (length coeffs) - 1 :: dip_uint);
                buf = inBuffer params;
                stride = inStride params;
                len = inLength params
            in (case symmetryI (filters ! procDim) of
                 GENERAL \<Rightarrow>
                   if unat filterSize \<le> length coeffs
                   then Some (line_loop (general_sample coeffs buf stride (unat filterSize))
                                stride len (sint origin * stride))
                   else None
               | EVEN \<Rightarrow>
                   if unat fsh < length coeffs
                   then Some (line_loop (centered_sample (+) coeffs buf stride (unat fsh))
                                stride len (sint (origin - fsh) * stride))
                   else None
               | ODD \<Rightarrow>
                   if unat fsh < length coeffs
                   then Some (line_loop (centered_sample (-) coeffs buf stride (unat fsh))
                                stride len (sint (origin - fsh) * stride))
                   else None
               | D_EVEN \<Rightarrow>
                   if unat (fsh + 1) \<le> length coeffs
                   then Some (line_loop (paired_sample (+) coeffs buf stride (unat (fsh + 1)))
                                stride len (sint (origin - fsh) * stride))
                   else None
               | D_ODD \<Rightarrow>
                   if unat (fsh + 1) \<le> length coeffs
                   then Some (line_loop (paired_sample (-) coeffs buf stride (unat (fsh + 1)))
                                stride len (sint (origin - fsh) * stride))
                   else None))"

text \<open>The symmetry string that the constructor reads as a given tag.\<close>

definition symmetry_string :: "FilterSymmetry \<Rightarrow> string" where
  "symmetry_string tag =
     (case tag of
        GENERAL \<Rightarrow> ''general''
      | EVEN \<Rightarrow> ''even''
      | ODD \<Rightarrow> ''odd''
      | D_EVEN \<Rightarrow> ''d-even''
      | D_ODD \<Rightarrow> ''d-odd'')"

text \<open>
  The full, explicit filter that a stored half stands for: the mirror image is
  appended, negated for the odd symmetries, and without repeating the center
  for EVEN and ODD. These are the filters the tests of the source compare with.
\<close>

definition full_filter :: "FilterSymmetry \<Rightarrow> real list \<Rightarrow> real list" where
  "full_filter tag h =
     (case tag of
        GENERAL \<Rightarrow> h
      | EVEN \<Rightarrow> h @ rev (butlast h)
      | ODD \<Rightarrow> h @ map uminus (rev (butlast h))
      | D_EVEN \<Rightarrow> h @ rev h
      | D_ODD \<Rightarrow> h @ map uminus (rev h))"

section \<open>The separable convolution orchestrator\<close>

definition IsMeaninglessFilter :: "InternFilter \<Rightarrow> bool" where
  "IsMeaninglessFilter f \<longleftrightarrow> sizeI f = 0 \<or> (sizeI f = 1 \<and> filterI f ! 0 = 1)"

text \<open>
  What these functions read of an image: whether it is forged, its sizes (the
  dimensionality is their number), its sample type, and its samples by
  coordinates.
\<close>

datatype DataType =
    DT_BIN | DT_UINT8 | DT_SINT8 | DT_UINT16 | DT_SINT16 | DT_UINT32 | DT_SINT32
  | DT_SFLOAT | DT_DFLOAT | DT_SCOMPLEX | DT_DCOMPLEX

record 's Image =
  IsForged :: bool
  Sizes :: "nat list"
  DataTypeOf :: DataType
  Samples :: "nat list \<Rightarrow> 's"

definition Dimensionality :: "'s Image \<Rightarrow> nat" where
  "Dimensionality img = length (Sizes img)"

text \<open>
  The loop \<open>for( auto const& f : filterArray ) filterData.emplace_back( f )\<close>: the
  first constructor that throws ends it.
\<close>

fun intern_all :: "OneDimensionalFilter list \<Rightarrow> error + InternFilter list" where
  "intern_all [] = Inr []"
| "intern_all (f # fs) =
     (case InternOneDimensionalFilter f of
        Inl e \<Rightarrow> Inl e
      | Inr x \<Rightarrow> (case intern_all fs of Inl e \<Rightarrow> Inl e | Inr xs \<Rightarrow> Inr (x # xs)))"

text \<open>
  The three lines \<open>sz = filterData[ii].size; b = filterData[ii].origin;
  b = std::max( b, sz - b - 1 )\<close>, which the source has twice. The subtraction
  is on \<open>dip::uint\<close>.
\<close>

definition filter_border :: "InternFilter \<Rightarrow> dip_uint" where
  "filter_border f = (let sz = sizeI f; b = originI f in max b (sz - b - 1))"

text \<open>
  The arguments \<open>SeparableConvolution\<close> has computed when it calls the line engine.
\<close>

record SeparableArguments =
  filterData :: "InternFilter list"
  border :: "dip_uint list"
  process :: "bool list"

text \<open>
  \<open>SeparableConvolution\<close> up to the dispatch: the checks, the normalized filters,
  the \<open>border\<close> array and the \<open>process\<close> array. The last argument is the caller's
  \<open>process\<close> array.
\<close>

definition SeparableConvolution_arguments ::
  "'s Image \<Rightarrow> OneDimensionalFilter list \<Rightarrow> bool list \<Rightarrow> error + SeparableArguments" where
  "SeparableConvolution_arguments inp filterArray process0 =
    (if \<not> IsForged inp then Inl IMAGE_NOT_FORGED
     else
       let nDims = Dimensionality inp in
       if nDims < 1 then Inl DIMENSIONALITY_NOT_SUPPORTED
       else if length filterArray \<noteq> 1 \<and> length filterArray \<noteq> nDims then Inl ARRAY_ILLEGAL_SIZE
       else
         (case intern_all filterArray of
            Inl e \<Rightarrow> Inl e
          | Inr fd \<Rightarrow>
              let brd = (if length fd = 1 then replicate nDims (filter_border (fd ! 0))
                         else map (\<lambda>ii. filter_border (fd ! ii)) [0..<nDims])
              in
                (case (if process0 = [] then Inr (replicate nDims True)
                       else if length process0 \<noteq> nDims then Inl ARRAY_PARAMETER_WRONG_LENGTH
                       else Inr process0)
                 of Inl e \<Rightarrow> Inl e
                  | Inr process1 \<Rightarrow>
                      Inr \<lparr> filterData = fd, border = brd,
                            process =
                              (if length fd = 1 then
                                 (if IsMeaninglessFilter (fd ! 0)
                                  then replicate (length process1) False
                                  else process1)
                               else
                                 fold (\<lambda>ii p. if IsMeaninglessFilter (fd ! ii) \<or> Sizes inp ! ii \<le> 1
                                               then p[ii := False] else p)
                                      [0..<nDims] process1) \<rparr>)))"

text \<open>
  Modelled from the spec: \<open>Framework::Separable\<close>, the external per-line engine, is
  not among the sources. The specification says it is driven across the
  dimensions selected for processing, and that a dimension marked as not
  processed is left alone; it produces the output in the requested sample type.
  What processing one dimension does to the image (boundary extension, line
  extraction, the calls of the line filter, output assembly) is the parameter
  \<open>processDim\<close>.
\<close>

definition Framework_Separable ::
  "(nat \<Rightarrow> 's Image \<Rightarrow> 's Image) \<Rightarrow> 's Image \<Rightarrow> DataType \<Rightarrow> bool list \<Rightarrow> 's Image" where
  "Framework_Separable processDim inp dtype proc =
     fold (\<lambda>d img. if proc ! d then processDim d img else img)
          [0..<Dimensionality inp] (inp \<lparr> DataTypeOf := dtype \<rparr>)"

text \<open>
  \<open>SeparableConvolution\<close> as a whole. \<open>StringArrayToBoundaryConditionArray\<close> and
  \<open>DataType::SuggestFlex\<close> are not among the sources and are parameters; so is
  the line engine, which receives the image, the sample type, the \<open>process\<close> and
  \<open>border\<close> arrays, the boundary conditions and the normalized filters of the
  line filter.
\<close>

definition SeparableConvolution ::
  "(string list \<Rightarrow> error + 'bc) \<Rightarrow> (DataType \<Rightarrow> DataType) \<Rightarrow>
   ('s Image \<Rightarrow> DataType \<Rightarrow> bool list \<Rightarrow> dip_uint list \<Rightarrow> 'bc \<Rightarrow> InternFilter list \<Rightarrow> 's Image) \<Rightarrow>
   's Image \<Rightarrow> OneDimensionalFilter list \<Rightarrow> string list \<Rightarrow> bool list \<Rightarrow> error + 's Image" where
  "SeparableConvolution StringArrayToBoundaryConditionArray SuggestFlex Separable
       inp filterArray boundaryCondition process0 =
    (case SeparableConvolution_arguments inp filterArray process0 of
       Inl e \<Rightarrow> Inl e
     | Inr args \<Rightarrow>
         (case StringArrayToBoundaryConditionArray boundaryCondition of
            Inl e \<Rightarrow> Inl e
          | Inr bc \<Rightarrow>
              Inr (Separable inp (SuggestFlex (DataTypeOf inp)) (process args) (border args) bc
                     (filterData args))))"

section \<open>Frequency-domain convolution\<close>

text \<open>
  Modelled from the spec: \<open>Image::ExpandDimensionality\<close> is not among the sources;
  the specification says it appends trailing singleton dimensions up to the
  requested dimensionality.
\<close>

definition ExpandDimensionality :: "nat list \<Rightarrow> nat \<Rightarrow> nat list" where
  "ExpandDimensionality sz n = sz @ replicate (n - length sz) 1"

text \<open>
  Modelled from the spec: the comparison \<open><=\<close> of two size arrays is not among the
  sources. It compares extent by extent; the comment at its call in \<open>ConvolveFT\<close>
  says that it is also false when the dimensionalities differ.
\<close>

definition sizes_le :: "nat list \<Rightarrow> nat list \<Rightarrow> bool" where
  "sizes_le a b \<longleftrightarrow> length a = length b \<and> list_all (\<lambda>(x, y). x \<le> y) (zip a b)"

text \<open>
  The operations on images that \<open>ConvolveFT\<close> invokes, in the order of the calls:
  the forward transform of the input, the expansion of the filter, its padding
  with zeros to the given sizes, its forward transform, the sample-wise product
  and the last transform with its option set. (\<open>Image::Pad\<close> is not among the
  sources; the specification describes the call as zero-padding the filter to
  the input's shape.)
\<close>

datatype call =
    FourierTransform_in
  | ExpandDimensionality_filter nat
  | Pad_filter "nat list"
  | FourierTransform_filter
  | MultiplySampleWise
  | FourierTransform_out "string set"

record ConvolveFT_run =
  calls :: "call list"
  realFlag :: bool

text \<open>
  \<open>ConvolveFT\<close>: the checks, the flag \<open>real\<close> and the calls. \<open>DataType::IsReal\<close> is
  not among the sources and is a parameter. Padding keeps the sample type of the
  filter. \<open>QuickCopy\<close> shares the data and is not recorded.
\<close>

definition ConvolveFT ::
  "(DataType \<Rightarrow> bool) \<Rightarrow> 's Image \<Rightarrow> 's Image \<Rightarrow> string \<Rightarrow> string \<Rightarrow> string \<Rightarrow> error + ConvolveFT_run" where
  "ConvolveFT IsReal inp filt inRepresentation filterRepresentation outRepresentation =
    (if \<not> IsForged inp then Inl IMAGE_NOT_FORGED
     else if \<not> IsForged filt then Inl IMAGE_NOT_FORGED
     else
       let real0 = True;
           (real1, calls1) =
              (if inRepresentation = ''spatial''
               then (real0 \<and> IsReal (DataTypeOf inp), [FourierTransform_in])
               else (False, []));
           (filterSizes, calls2) =
              (if Dimensionality filt < Dimensionality inp
               then (ExpandDimensionality (Sizes filt) (Dimensionality inp),
                     calls1 @ [ExpandDimensionality_filter (Dimensionality inp)])
               else (Sizes filt, calls1))
       in if \<not> sizes_le filterSizes (Sizes inp) then Inl SIZES_DONT_MATCH
          else
            let calls3 = calls2 @ [Pad_filter (Sizes inp)];
                (real2, calls4) =
                   (if filterRepresentation = ''spatial''
                    then (real1 \<and> IsReal (DataTypeOf filt), calls3 @ [FourierTransform_filter])
                    else (False, calls3));
                calls5 = calls4 @ [MultiplySampleWise];
                calls6 =
                   (if outRepresentation = ''spatial''
                    then calls5 @ [FourierTransform_out
                                     (if real2 then insert ''real'' {''inverse''} else {''inverse''})]
                    else calls5)
            in Inr \<lparr> calls = calls6, realFlag = real2 \<rparr>)"

text \<open>The calls that work on the filter.\<close>

fun on_filter :: "call \<Rightarrow> bool" where
  "on_filter (ExpandDimensionality_filter n) = True"
| "on_filter (Pad_filter sz) = True"
| "on_filter FourierTransform_filter = True"
| "on_filter c = False"

text \<open>
  The words of the specification: the filter's extent exceeds the input's extent
  in some dimension.
\<close>

definition extent_exceeds :: "nat list \<Rightarrow> nat list \<Rightarrow> bool" where
  "extent_exceeds filterSizes inSizes \<longleftrightarrow> list_ex (\<lambda>(x, y). y < x) (zip filterSizes inSizes)"

text \<open>How \<open>ConvolveFT\<close> reads a representation string.\<close>

definition representation_read :: "string \<Rightarrow> string" where
  "representation_read r = (if r = ''spatial'' then ''spatial'' else ''frequency'')"

section \<open>General convolution\<close>

text \<open>
  \<open>GeneralConvolutionLineFilter<TPI>::Filter\<close>: for each output sample the offsets
  and the weights of the pixel table are walked together,
  \<open>while( !ito.IsAtEnd() ) { sum += in[ *ito ] * *itw; ++ito; ++itw; }\<close>.
  Reading a weight past the end of the weights is \<open>None\<close>.
\<close>

record PixelTableOffsets =
  Offsets :: "int list"
  Weights :: "real list"

fun weighted_loop :: "(int \<Rightarrow> 'a::real_vector) \<Rightarrow> int \<Rightarrow> int list \<Rightarrow> real list \<Rightarrow> 'a \<Rightarrow> 'a" where
  "weighted_loop buf in_p [] ws acc = acc"
| "weighted_loop buf in_p (ofs # ito) ws acc =
     weighted_loop buf in_p ito (tl ws) (acc + scaleR (hd ws) (buf (in_p + ofs)))"

definition GeneralFilter ::
  "(int \<Rightarrow> 'a::real_vector) \<Rightarrow> int \<Rightarrow> nat \<Rightarrow> PixelTableOffsets \<Rightarrow> 'a list option" where
  "GeneralFilter buf stride bufferLength pixelTable =
     (if length (Offsets pixelTable) \<le> length (Weights pixelTable)
      then Some (line_loop (\<lambda>in_p. weighted_loop buf in_p (Offsets pixelTable) (Weights pixelTable) 0)
                   stride bufferLength 0)
      else None)"

text \<open>
  Modelled from the spec: the uniform filter \<open>Uniform\<close> is not among the sources.
  The specification describes its result as the unweighted neighborhood sum
  divided by the kernel cardinality; here on one line, over the offsets of the
  kernel's footprint.
\<close>

definition UniformLine :: "(int \<Rightarrow> 'a::real_vector) \<Rightarrow> int \<Rightarrow> nat \<Rightarrow> int list \<Rightarrow> 'a list" where
  "UniformLine buf stride bufferLength footprint =
     line_loop (\<lambda>in_p. scaleR (1 / real (length footprint))
                         (sum_list (map (\<lambda>ofs. buf (in_p + ofs)) footprint)))
       stride bufferLength 0"

text \<open>
  The kernel object: the image it was built from and whether \<open>Mirror\<close> has been
  applied. The class \<open>Kernel\<close> is not among the sources.
\<close>

record 's Kernel =
  kernelImage :: "'s Image"
  mirrored :: bool

definition KernelOf :: "'s Image \<Rightarrow> 's Kernel" where
  "KernelOf img = \<lparr> kernelImage = img, mirrored = False \<rparr>"

definition Mirror :: "'s Kernel \<Rightarrow> 's Kernel" where
  "Mirror k = k \<lparr> mirrored := \<not> mirrored k \<rparr>"

text \<open>
  \<open>GeneralConvolution\<close>. The uniform filter, the full line engine,
  \<open>DataType::IsBinary\<close>, \<open>DataType::SuggestFlex\<close> and
  \<open>StringArrayToBoundaryConditionArray\<close> are not among the sources and are
  parameters.
\<close>

definition GeneralConvolution ::
  "(DataType \<Rightarrow> bool) \<Rightarrow> (string list \<Rightarrow> error + 'bc) \<Rightarrow> (DataType \<Rightarrow> DataType) \<Rightarrow>
   ('s Image \<Rightarrow> 's Kernel \<Rightarrow> string list \<Rightarrow> error + 's Image) \<Rightarrow>
   ('s Image \<Rightarrow> DataType \<Rightarrow> 'bc \<Rightarrow> 's Kernel \<Rightarrow> error + 's Image) \<Rightarrow>
   's Image \<Rightarrow> 's Image \<Rightarrow> string list \<Rightarrow> error + 's Image" where
  "GeneralConvolution IsBinary StringArrayToBoundaryConditionArray SuggestFlex Uniform Full
       inp c_filter boundaryCondition =
    (if \<not> IsForged inp then Inl IMAGE_NOT_FORGED
     else if \<not> IsForged c_filter then Inl IMAGE_NOT_FORGED
     else
       let filt = Mirror (KernelOf c_filter) in
       if IsBinary (DataTypeOf c_filter) then Uniform inp filt boundaryCondition
       else
         (case StringArrayToBoundaryConditionArray boundaryCondition of
            Inl e \<Rightarrow> Inl e
          | Inr bc \<Rightarrow> Full inp (SuggestFlex (DataTypeOf inp)) bc filt))"

section \<open>Facts about 64-bit sizes\<close>

lemma int_less_pow2: "(n::nat) < 2 ^ k \<Longrightarrow> int n < 2 ^ k"
  by (metis of_nat_less_iff of_nat_numeral of_nat_power)

lemma sint_eq_unat64:
  assumes "unat (w :: 64 word) < 2 ^ 63"
  shows "sint w = int (unat w)"
proof -
  have "int (unat w) < 2 ^ 63" using assms by (rule int_less_pow2)
  moreover have "- (2 ^ 63) \<le> int (unat w)"
    by (rule order_trans [of _ 0]) simp_all
  ultimately have e: "signed_take_bit 63 (int (unat w)) = int (unat w)"
    by (intro signed_take_bit_int_eq_self)
  have "sint w = signed_take_bit 63 (int (unat w))"
    by (simp add: sint_uint)
  also note e
  finally show ?thesis .
qed

lemma sint_sub64:
  assumes "unat (a :: 64 word) < 2 ^ 62" "unat (b :: 64 word) < 2 ^ 62"
  shows "sint (a - b) = int (unat a) - int (unat b)"
proof -
  have a: "sint a = int (unat a)" using assms(1) by (intro sint_eq_unat64) simp
  have b: "sint b = int (unat b)" using assms(2) by (intro sint_eq_unat64) simp
  have la: "int (unat a) < 2 ^ 62" using assms(1) by (rule int_less_pow2)
  have lb: "int (unat b) < 2 ^ 62" using assms(2) by (rule int_less_pow2)
  have p: "(2::int) ^ 63 = 2 * 2 ^ 62" by simp
  have "int (unat a) - int (unat b) < 2 ^ 63" unfolding p using la by linarith
  moreover have "- (2 ^ 63) \<le> int (unat a) - int (unat b)" unfolding p using lb by linarith
  ultimately have e:
    "signed_take_bit 63 (int (unat a) - int (unat b)) = int (unat a) - int (unat b)"
    by (intro signed_take_bit_int_eq_self)
  have "sint (a - b) = signed_take_bit 63 (sint a - sint b)"
    by (simp add: sint_word_ariths)
  also have "\<dots> = signed_take_bit 63 (int (unat a) - int (unat b))" unfolding a b ..
  also note e
  finally show ?thesis .
qed

lemma unat_of_nat64: "n < 2 ^ 64 \<Longrightarrow> unat (word_of_nat n :: 64 word) = n"
  by (simp add: unat_of_nat)

lemma word_of_nat_eq_0_len: "n < 2 ^ 64 \<Longrightarrow> (word_of_nat n :: 64 word) = 0 \<longleftrightarrow> n = 0"
  using unat_of_nat64 [of n] by (auto simp del: unsigned_of_nat)

lemma unat_nonneg_sint64:
  assumes "0 \<le> sint (w :: 64 word)"
  shows "unat w = nat (sint w)" and "unat w < 2 ^ 63"
proof -
  show small: "unat w < 2 ^ 63"
  proof (rule ccontr)
    assume "\<not> unat w < 2 ^ 63"
    then have "2 ^ 63 \<le> unat w" by simp
    then have "int (2 ^ 63) \<le> int (unat w)" by (simp only: of_nat_le_iff)
    then have big: "(2::int) ^ 63 \<le> int (unat w)" by simp
    have "signed_take_bit 63 (int (unat w)) \<le> int (unat w) - 2 ^ Suc 63"
      using big by (rule signed_take_bit_int_less_eq)
    then have le: "signed_take_bit 63 (int (unat w)) \<le> int (unat w) - 2 ^ 64"
      by (simp only: power_Suc) simp
    have s: "sint w = signed_take_bit 63 (int (unat w))"
      by (simp add: sint_uint)
    have "int (unat w) < 2 ^ 64"
      using unsigned_less [of w, where ?'a = nat] by (intro int_less_pow2) simp
    with le have "signed_take_bit 63 (int (unat w)) < 0" by linarith
    with assms show False unfolding s by linarith
  qed
  then have "sint w = int (unat w)" by (rule sint_eq_unat64)
  then show "unat w = nat (sint w)" by simp
qed

section \<open>The normalizer computes the logical size\<close>

lemma size_even_word:
  assumes "0 < n"
  shows "(word_of_nat n :: 64 word) + (word_of_nat n - 1) = word_of_nat (2 * n - 1)"
proof -
  have "2 * n - 1 = n + (n - 1)" using assms by simp
  moreover have "(word_of_nat (n - 1) :: 64 word) = word_of_nat n - 1"
    using assms by (simp add: of_nat_diff)
  ultimately show ?thesis by simp
qed

lemma logicalSize_bound: "n < 2 ^ 62 \<Longrightarrow> logicalSize s n < 2 ^ 63"
  by (auto simp: logicalSize_def)

lemma logicalSize_pos: "0 < n \<Longrightarrow> 0 < logicalSize s n"
  by (auto simp: logicalSize_def)

lemma half_word:
  assumes "m < 2 ^ 64"
  shows "(word_of_nat m :: 64 word) div 2 = word_of_nat (m div 2)"
proof -
  have "unat ((word_of_nat m :: 64 word) div 2) = m div 2"
    using assms by (simp add: unat_div unat_of_nat64 del: unsigned_of_nat)
  moreover have "unat (word_of_nat (m div 2) :: 64 word) = m div 2"
    using assms by (intro unat_of_nat64) simp
  ultimately show ?thesis by (simp only: word_unat_eq_iff)
qed

text \<open>
  On a non-empty coefficient array with a recognized symmetry string, and as long
  as the array has fewer than \<open>2 ^ 62\<close> entries (no array in memory has more),
  the constructor's wrapping arithmetic computes the logical size of the
  specification.
\<close>

lemma InternOneDimensionalFilter_nonempty:
  assumes ne: "filterF inp \<noteq> []" and len: "length (filterF inp) < 2 ^ 62"
    and sym: "recognized_symmetry (symmetryF inp)"
  shows "InternOneDimensionalFilter inp =
    (let L = logicalSize (symmetryF inp) (length (filterF inp));
         f = \<lparr> filterI = filterF inp, sizeI = word_of_nat L, originI = 0,
               symmetryI = symmetry_tag (symmetryF inp) \<rparr>
     in if sint (originF inp) < 0 then Inr (f \<lparr> originI := word_of_nat (L div 2) \<rparr>)
        else if L \<le> unat (originF inp) then Inl OriginOutsideOfFilter
        else Inr (f \<lparr> originI := originF inp \<rparr>))"
proof -
  let ?n = "length (filterF inp)"
  let ?L = "logicalSize (symmetryF inp) ?n"
  have n0: "0 < ?n" using ne by simp
  have n64: "?n < 2 ^ 64" using len by (rule less_trans) simp
  have nz: "(word_of_nat ?n :: 64 word) \<noteq> 0"
    using n0 n64 by (simp add: word_of_nat_eq_0_len)
  have L64: "?L < 2 ^ 64" using logicalSize_bound [OF len] by (rule less_trans) simp
  have uL: "unat (word_of_nat ?L :: 64 word) = ?L" using L64 by (rule unat_of_nat64)
  have le: "(word_of_nat ?L \<le> originF inp) = (?L \<le> unat (originF inp))"
    unfolding word_le_nat_alt uL ..
  have ev: "(word_of_nat ?n :: 64 word) + (word_of_nat ?n - 1) = word_of_nat (2 * ?n - 1)"
    using n0 by (rule size_even_word)
  have half: "(word_of_nat ?L :: 64 word) div 2 = word_of_nat (?L div 2)"
    using L64 by (rule half_word)
  consider "symmetryF inp = []" | "symmetryF inp = ''general''" | "symmetryF inp = ''even''"
    | "symmetryF inp = ''odd''" | "symmetryF inp = ''d-even''" | "symmetryF inp = ''d-odd''"
    using sym unfolding recognized_symmetry_def by blast
  then show ?thesis
  proof cases
    case 1
    then have L: "?L = ?n" by (simp add: logicalSize_def)
    show ?thesis using nz 1 le half unfolding L
      by (simp add: InternOneDimensionalFilter_def Let_def symmetry_tag_def logicalSize_def
          del: of_nat_eq_0_iff)
  next
    case 2
    then have L: "?L = ?n" by (simp add: logicalSize_def)
    show ?thesis using nz 2 le half unfolding L
      by (simp add: InternOneDimensionalFilter_def Let_def symmetry_tag_def logicalSize_def)
  next
    case 3
    then have L: "?L = 2 * ?n - 1" by (simp add: logicalSize_def)
    show ?thesis using nz 3 le half unfolding L
      by (simp add: InternOneDimensionalFilter_def Let_def symmetry_tag_def logicalSize_def ev)
  next
    case 4
    then have L: "?L = 2 * ?n - 1" by (simp add: logicalSize_def)
    show ?thesis using nz 4 le half unfolding L
      by (simp add: InternOneDimensionalFilter_def Let_def symmetry_tag_def logicalSize_def ev)
  next
    case 5
    then have L: "?L = 2 * ?n" by (simp add: logicalSize_def)
    show ?thesis using nz 5 le half unfolding L
      by (simp add: InternOneDimensionalFilter_def Let_def symmetry_tag_def logicalSize_def)
  next
    case 6
    then have L: "?L = 2 * ?n" by (simp add: logicalSize_def)
    show ?thesis using nz 6 le half unfolding L
      by (simp add: InternOneDimensionalFilter_def Let_def symmetry_tag_def logicalSize_def)
  qed
qed

section \<open>Claims about the normalizer\<close>

text \<open>
  C4, as stated: every description with an unrecognized symmetry string is
  rejected, also one with no coefficients. This fails: the constructor looks at
  the symmetry string only inside \<open>if( size != 0 )\<close>, so an empty coefficient
  array is accepted whatever the string says.
\<close>

theorem C4_empty_filter_counterexample:
  "\<not> recognized_symmetry ''bogus'' \<and>
   InternOneDimensionalFilter \<lparr> filterF = [], originF = - 1, symmetryF = ''bogus'' \<rparr>
     = Inr \<lparr> filterI = [], sizeI = 0, originI = 0, symmetryI = GENERAL \<rparr>"
  by (simp add: recognized_symmetry_def InternOneDimensionalFilter_def)

text \<open>
  C4, amended: a description whose symmetry string is not one of the five tags
  and not empty is rejected with the "symmetry string not recognized" error
  whenever it has at least one coefficient, whatever the coefficients and the
  origin are; with no coefficients it is accepted as the absent filter (size 0,
  origin 0, GENERAL).
\<close>

theorem C4_unrecognized_symmetry:
  assumes "\<not> recognized_symmetry (symmetryF inp)" and "length (filterF inp) < 2 ^ 64"
  shows "InternOneDimensionalFilter inp =
     (if filterF inp = []
      then Inr \<lparr> filterI = [], sizeI = 0, originI = 0, symmetryI = GENERAL \<rparr>
      else Inl (SymmetryStringNotRecognized (symmetryF inp)))"
proof (cases "filterF inp = []")
  case True
  then show ?thesis by (simp add: InternOneDimensionalFilter_def)
next
  case False
  then have "(word_of_nat (length (filterF inp)) :: 64 word) \<noteq> 0"
    using assms(2) by (simp add: word_of_nat_eq_0_len)
  with False assms(1) show ?thesis
    by (simp add: InternOneDimensionalFilter_def recognized_symmetry_def Let_def)
qed

theorem C4_unrecognized_symmetry_witness:
  "\<not> recognized_symmetry ''Even'' \<and> length [1, 2 :: real] < 2 ^ 64 \<and>
   InternOneDimensionalFilter \<lparr> filterF = [1, 2], originF = 0, symmetryF = ''Even'' \<rparr>
     = Inl (SymmetryStringNotRecognized ''Even'')"
  using C4_unrecognized_symmetry [of "\<lparr> filterF = [1, 2], originF = 0, symmetryF = ''Even'' \<rparr>"]
  by (simp add: recognized_symmetry_def)

text \<open>
  C5: for a description with at least one coefficient and a recognized symmetry,
  a negative origin becomes the logical size divided by two (integer division);
  a non-negative origin is rejected with "origin outside of filter" exactly when
  it is at least the logical size, and is kept unchanged otherwise. The logical
  size is the one of the specification, over the integers.
\<close>

theorem C5_origin:
  assumes "filterF inp \<noteq> []" and "length (filterF inp) < 2 ^ 62"
    and "recognized_symmetry (symmetryF inp)"
  shows "(sint (originF inp) < 0 \<longrightarrow>
            (\<exists>f. InternOneDimensionalFilter inp = Inr f
               \<and> unat (sizeI f) = logicalSize (symmetryF inp) (length (filterF inp))
               \<and> unat (originI f) = logicalSize (symmetryF inp) (length (filterF inp)) div 2))
       \<and> (0 \<le> sint (originF inp) \<longrightarrow>
            ((InternOneDimensionalFilter inp = Inl OriginOutsideOfFilter)
               = (int (logicalSize (symmetryF inp) (length (filterF inp))) \<le> sint (originF inp)))
          \<and> (sint (originF inp) < int (logicalSize (symmetryF inp) (length (filterF inp))) \<longrightarrow>
               (\<exists>f. InternOneDimensionalFilter inp = Inr f
                  \<and> unat (sizeI f) = logicalSize (symmetryF inp) (length (filterF inp))
                  \<and> originI f = originF inp)))"
proof -
  let ?L = "logicalSize (symmetryF inp) (length (filterF inp))"
  note eq = InternOneDimensionalFilter_nonempty [OF assms]
  have L64: "?L < 2 ^ 64" using logicalSize_bound [OF assms(2)] by (rule less_trans) simp
  have uL: "unat (word_of_nat ?L :: 64 word) = ?L" using L64 by (rule unat_of_nat64)
  have uH: "unat (word_of_nat (?L div 2) :: 64 word) = ?L div 2"
    using L64 by (intro unat_of_nat64) simp
  show ?thesis
  proof (cases "sint (originF inp) < 0")
    case True
    then show ?thesis using eq uL uH by (simp add: Let_def del: unsigned_of_nat)
  next
    case False
    then have nn: "0 \<le> sint (originF inp)" by simp
    have u: "unat (originF inp) = nat (sint (originF inp))"
      using nn by (rule unat_nonneg_sint64)
    have cmp: "(?L \<le> unat (originF inp)) = (int ?L \<le> sint (originF inp))"
      unfolding u using nn by linarith
    show ?thesis using False eq uL cmp by (auto simp: Let_def simp del: unsigned_of_nat)
  qed
qed

theorem C5_origin_witness:
  "InternOneDimensionalFilter \<lparr> filterF = [1, 2, 3], originF = - 1, symmetryF = ''d-even'' \<rparr>
     = Inr \<lparr> filterI = [1, 2, 3], sizeI = 6, originI = 3, symmetryI = D_EVEN \<rparr>
   \<and> InternOneDimensionalFilter \<lparr> filterF = [1, 2, 3], originF = 5, symmetryF = ''even'' \<rparr>
     = Inl OriginOutsideOfFilter
   \<and> InternOneDimensionalFilter \<lparr> filterF = [1, 2, 3], originF = 4, symmetryF = ''even'' \<rparr>
     = Inr \<lparr> filterI = [1, 2, 3], sizeI = 5, originI = 4, symmetryI = EVEN \<rparr>"
proof -
  have a: "InternOneDimensionalFilter \<lparr> filterF = [1, 2, 3], originF = - 1, symmetryF = ''d-even'' \<rparr>
     = Inr \<lparr> filterI = [1, 2, 3], sizeI = 6, originI = 3, symmetryI = D_EVEN \<rparr>"
    using C5_origin [of "\<lparr> filterF = [1, 2, 3], originF = - 1, symmetryF = ''d-even'' \<rparr>"]
    by (simp add: InternOneDimensionalFilter_def)
  have b: "InternOneDimensionalFilter \<lparr> filterF = [1, 2, 3], originF = 5, symmetryF = ''even'' \<rparr>
     = Inl OriginOutsideOfFilter"
    using C5_origin [of "\<lparr> filterF = [1, 2, 3], originF = 5, symmetryF = ''even'' \<rparr>"]
    by (simp add: recognized_symmetry_def logicalSize_def)
  have c: "InternOneDimensionalFilter \<lparr> filterF = [1, 2, 3], originF = 4, symmetryF = ''even'' \<rparr>
     = Inr \<lparr> filterI = [1, 2, 3], sizeI = 5, originI = 4, symmetryI = EVEN \<rparr>"
    using C5_origin [of "\<lparr> filterF = [1, 2, 3], originF = 4, symmetryF = ''even'' \<rparr>"]
    by (simp add: InternOneDimensionalFilter_def)
  from a b c show ?thesis by simp
qed

section \<open>The loops of the line filter as sums\<close>

lemma general_loop_sum:
  "general_loop c buf s n jj p acc =
     acc + (\<Sum>j = jj..<n. scaleR (c ! j) (buf (p - int (j - jj) * s)))"
proof (induction c buf s n jj p acc rule: general_loop.induct)
  case (1 c buf s n jj p acc)
  show ?case
  proof (cases "jj < n")
    case True
    have "(\<Sum>j = jj..<n. scaleR (c ! j) (buf (p - int (j - jj) * s)))
        = scaleR (c ! jj) (buf p) + (\<Sum>j = Suc jj..<n. scaleR (c ! j) (buf (p - int (j - jj) * s)))"
      using True by (simp add: sum.atLeast_Suc_lessThan)
    moreover have "(\<Sum>j = Suc jj..<n. scaleR (c ! j) (buf (p - int (j - jj) * s)))
        = (\<Sum>j = Suc jj..<n. scaleR (c ! j) (buf (p - s - int (j - Suc jj) * s)))"
    proof (rule sum.cong [OF refl])
      fix j assume "j \<in> {Suc jj..<n}"
      then have "int (j - jj) = int (j - Suc jj) + 1" by auto
      then show "scaleR (c ! j) (buf (p - int (j - jj) * s)) = scaleR (c ! j) (buf (p - s - int (j - Suc jj) * s))"
        by (simp add: algebra_simps)
    qed
    ultimately show ?thesis
      using True "1.IH" [OF True]
      by (subst general_loop.simps) (simp add: add.assoc)
  next
    case False
    then show ?thesis by (subst general_loop.simps) simp
  qed
qed

lemma paired_loop_sum:
  "paired_loop comb c buf s m l r acc =
     acc + (\<Sum>k<m. scaleR (c ! (m - Suc k)) (comb (buf (r + int k * s)) (buf (l - int k * s))))"
proof (induction m arbitrary: l r acc)
  case 0
  then show ?case by simp
next
  case (Suc m)
  have "(\<Sum>k<Suc m. scaleR (c ! (Suc m - Suc k)) (comb (buf (r + int k * s)) (buf (l - int k * s))))
      = scaleR (c ! m) (comb (buf r) (buf l))
        + (\<Sum>k<m. scaleR (c ! (m - Suc k))
              (comb (buf (r + int (Suc k) * s)) (buf (l - int (Suc k) * s))))"
    by (subst sum.lessThan_Suc_shift) simp
  also have "\<dots> = scaleR (c ! m) (comb (buf r) (buf l))
        + (\<Sum>k<m. scaleR (c ! (m - Suc k))
              (comb (buf (r + s + int k * s)) (buf (l - s - int k * s))))"
    by (simp add: algebra_simps)
  finally show ?case by (simp add: Suc.IH add.assoc)
qed

lemma line_loop_map:
  "line_loop body s n p = map (\<lambda>ii. body (p + int ii * s)) [0..<n]"
proof (induction n arbitrary: p)
  case 0
  then show ?case by simp
next
  case (Suc n)
  have "map (\<lambda>ii. body (p + int ii * s)) [0..<Suc n]
      = body p # map (\<lambda>ii. body (p + int (Suc ii) * s)) [0..<n]"
    by (subst map_upt_Suc) simp
  also have "\<dots> = body p # map (\<lambda>ii. body (p + s + int ii * s)) [0..<n]"
    by (simp add: algebra_simps)
  finally show ?case by (simp add: Suc.IH)
qed

lemma general_sample_sum:
  fixes buf :: "int \<Rightarrow> 'a::real_vector"
  shows "general_sample F buf s n P = (\<Sum>j<n. scaleR (F ! j) (buf (P - int j * s)))"
  by (simp only: general_sample_def general_loop_sum) (simp add: lessThan_atLeast0)

lemma centered_sample_sum:
  fixes buf :: "int \<Rightarrow> 'a::real_vector"
  shows "centered_sample comb h buf s m C = scaleR (h ! m) (buf C)
      + (\<Sum>k<m. scaleR (h ! (m - Suc k)) (comb (buf (C + s + int k * s)) (buf (C - s - int k * s))))"
  by (simp only: centered_sample_def paired_loop_sum)

lemma paired_sample_sum:
  fixes buf :: "int \<Rightarrow> 'a::real_vector"
  shows "paired_sample comb h buf s n C =
      (\<Sum>k<n. scaleR (h ! (n - Suc k)) (comb (buf (C + int k * s)) (buf (C - s - int k * s))))"
  by (simp only: paired_sample_def paired_loop_sum) simp


lemma sum_split_center:
  fixes g :: "nat \<Rightarrow> 'a::comm_monoid_add"
  shows "(\<Sum>j<2 * m + 1. g j) = (\<Sum>k<m. g (m - Suc k)) + g m + (\<Sum>k<m. g (Suc m + k))"
proof -
  have "(\<Sum>j<2 * m + 1. g j) = (\<Sum>j = 0..<m. g j) + (\<Sum>j = m..<2 * m + 1. g j)"
    unfolding lessThan_atLeast0 by (rule sum.atLeastLessThan_concat [symmetric]) simp_all
  also have "(\<Sum>j = m..<2 * m + 1. g j) = g m + (\<Sum>j = Suc m..<2 * m + 1. g j)"
    by (rule sum.atLeast_Suc_lessThan) simp
  also have "(\<Sum>j = Suc m..<2 * m + 1. g j) = (\<Sum>j = 0 + Suc m..<m + Suc m. g j)"
    by (rule arg_cong [where f = "sum g"]) auto
  also have "\<dots> = (\<Sum>k = 0..<m. g (k + Suc m))"
    by (rule sum.shift_bounds_nat_ivl)
  also have "\<dots> = (\<Sum>k<m. g (Suc m + k))"
    unfolding lessThan_atLeast0 by (simp add: add.commute)
  also have "(\<Sum>j = 0..<m. g j) = (\<Sum>k<m. g (m - Suc k))"
    unfolding lessThan_atLeast0 [symmetric] by (rule sum.nat_diff_reindex [symmetric])
  finally show ?thesis by (simp add: add.assoc)
qed

lemma sum_split_pair:
  fixes g :: "nat \<Rightarrow> 'a::comm_monoid_add"
  shows "(\<Sum>j<2 * n. g j) = (\<Sum>k<n. g (n - Suc k)) + (\<Sum>k<n. g (n + k))"
proof -
  have "(\<Sum>j<2 * n. g j) = (\<Sum>j = 0..<n. g j) + (\<Sum>j = n..<2 * n. g j)"
    unfolding lessThan_atLeast0 by (rule sum.atLeastLessThan_concat [symmetric]) simp_all
  also have "(\<Sum>j = n..<2 * n. g j) = (\<Sum>j = 0 + n..<n + n. g j)"
    by (rule arg_cong [where f = "sum g"]) auto
  also have "\<dots> = (\<Sum>k = 0..<n. g (k + n))"
    by (rule sum.shift_bounds_nat_ivl)
  also have "\<dots> = (\<Sum>k<n. g (n + k))"
    unfolding lessThan_atLeast0 by (simp add: add.commute)
  also have "(\<Sum>j = 0..<n. g j) = (\<Sum>k<n. g (n - Suc k))"
    unfolding lessThan_atLeast0 [symmetric] by (rule sum.nat_diff_reindex [symmetric])
  finally show ?thesis .
qed

lemma centered_core:
  fixes buf :: "int \<Rightarrow> 'a::real_vector"
  assumes "length h = Suc m"
  shows "general_sample (h @ map ((*) \<sigma>) (rev (butlast h))) buf s (2 * m + 1) P
       = centered_sample (\<lambda>x y. x + scaleR \<sigma> y) h buf s m (P - int m * s)"
proof -
  let ?F = "h @ map ((*) \<sigma>) (rev (butlast h))"
  let ?C = "P - int m * s"
  let ?g = "\<lambda>j. scaleR (?F ! j) (buf (P - int j * s))"
  have left: "(\<Sum>k<m. ?g (m - Suc k)) = (\<Sum>k<m. scaleR (h ! (m - Suc k)) (buf (?C + s + int k * s)))"
  proof (rule sum.cong [OF refl])
    fix k assume "k \<in> {..<m}"
    then have k: "k < m" by simp
    then have i: "int (m - Suc k) = int m - 1 - int k" by simp
    have "m - Suc k < length h" using k assms by simp
    then have a: "?F ! (m - Suc k) = h ! (m - Suc k)" by (rule nth_append_left)
    have b: "P - int (m - Suc k) * s = ?C + s + int k * s"
      unfolding i by (simp add: algebra_simps)
    show "?g (m - Suc k) = scaleR (h ! (m - Suc k)) (buf (?C + s + int k * s))"
      by (simp only: a b)
  qed
  have mid: "?g m = scaleR (h ! m) (buf ?C)"
    using assms by (simp add: nth_append)
  have right: "(\<Sum>k<m. ?g (Suc m + k))
      = (\<Sum>k<m. scaleR (h ! (m - Suc k)) (scaleR \<sigma> (buf (?C - s - int k * s))))"
  proof (rule sum.cong [OF refl])
    fix k assume "k \<in> {..<m}"
    then have k: "k < m" by simp
    have "?F ! (length h + k) = map ((*) \<sigma>) (rev (butlast h)) ! k"
      by (rule nth_append_length_plus)
    also have "\<dots> = \<sigma> * rev (butlast h) ! k" using k assms by simp
    also have "rev (butlast h) ! k = butlast h ! (m - Suc k)"
      using k assms by (simp add: rev_nth)
    also have "\<dots> = h ! (m - Suc k)" using k assms by (simp add: nth_butlast)
    finally have a: "?F ! (Suc m + k) = \<sigma> * h ! (m - Suc k)" using assms by simp
    have b: "P - int (Suc m + k) * s = ?C - s - int k * s"
      by (simp add: algebra_simps)
    show "?g (Suc m + k) = scaleR (h ! (m - Suc k)) (scaleR \<sigma> (buf (?C - s - int k * s)))"
      unfolding a b scaleR_scaleR by (simp only: mult.commute [of \<sigma>])
  qed
  have "general_sample ?F buf s (2 * m + 1) P = (\<Sum>j<2 * m + 1. ?g j)"
    by (rule general_sample_sum)
  also have "\<dots> = (\<Sum>k<m. ?g (m - Suc k)) + ?g m + (\<Sum>k<m. ?g (Suc m + k))"
    by (rule sum_split_center)
  also have "\<dots> = scaleR (h ! m) (buf ?C)
      + (\<Sum>k<m. scaleR (h ! (m - Suc k))
            (buf (?C + s + int k * s) + scaleR \<sigma> (buf (?C - s - int k * s))))"
    unfolding left mid right by (simp only: scaleR_add_right sum.distrib) (simp only: ac_simps)
  also have "\<dots> = centered_sample (\<lambda>x y. x + scaleR \<sigma> y) h buf s m ?C"
    by (simp only: centered_sample_sum)
  finally show ?thesis .
qed

lemma paired_core:
  fixes buf :: "int \<Rightarrow> 'a::real_vector"
  assumes "length h = Suc m"
  shows "general_sample (h @ map ((*) \<sigma>) (rev h)) buf s (2 * Suc m) P
       = paired_sample (\<lambda>x y. x + scaleR \<sigma> y) h buf s (Suc m) (P - int m * s)"
proof -
  let ?n = "Suc m"
  let ?F = "h @ map ((*) \<sigma>) (rev h)"
  let ?C = "P - int m * s"
  let ?g = "\<lambda>j. scaleR (?F ! j) (buf (P - int j * s))"
  have left: "(\<Sum>k<?n. ?g (?n - Suc k)) = (\<Sum>k<?n. scaleR (h ! (?n - Suc k)) (buf (?C + int k * s)))"
  proof (rule sum.cong [OF refl])
    fix k assume "k \<in> {..<?n}"
    then have k: "k < ?n" by simp
    then have i: "int (?n - Suc k) = int m - int k" by simp
    have "?n - Suc k < length h" using k assms by simp
    then have a: "?F ! (?n - Suc k) = h ! (?n - Suc k)" by (rule nth_append_left)
    have b: "P - int (?n - Suc k) * s = ?C + int k * s"
      unfolding i by (simp add: algebra_simps)
    show "?g (?n - Suc k) = scaleR (h ! (?n - Suc k)) (buf (?C + int k * s))"
      by (simp only: a b)
  qed
  have right: "(\<Sum>k<?n. ?g (?n + k))
      = (\<Sum>k<?n. scaleR (h ! (?n - Suc k)) (scaleR \<sigma> (buf (?C - s - int k * s))))"
  proof (rule sum.cong [OF refl])
    fix k assume "k \<in> {..<?n}"
    then have k: "k < ?n" by simp
    have "?F ! (length h + k) = map ((*) \<sigma>) (rev h) ! k"
      by (rule nth_append_length_plus)
    also have "\<dots> = \<sigma> * rev h ! k" using k assms by simp
    also have "rev h ! k = h ! (?n - Suc k)"
      using k assms by (simp add: rev_nth)
    finally have a: "?F ! (?n + k) = \<sigma> * h ! (?n - Suc k)" using assms by simp
    have b: "P - int (?n + k) * s = ?C - s - int k * s"
      by (simp add: algebra_simps)
    show "?g (?n + k) = scaleR (h ! (?n - Suc k)) (scaleR \<sigma> (buf (?C - s - int k * s)))"
      unfolding a b scaleR_scaleR by (simp only: mult.commute [of \<sigma>])
  qed
  have "general_sample ?F buf s (2 * ?n) P = (\<Sum>j<2 * ?n. ?g j)"
    by (rule general_sample_sum)
  also have "\<dots> = (\<Sum>k<?n. ?g (?n - Suc k)) + (\<Sum>k<?n. ?g (?n + k))"
    by (rule sum_split_pair)
  also have "\<dots> = (\<Sum>k<?n. scaleR (h ! (?n - Suc k))
            (buf (?C + int k * s) + scaleR \<sigma> (buf (?C - s - int k * s))))"
    unfolding left right by (simp only: scaleR_add_right sum.distrib)
  also have "\<dots> = paired_sample (\<lambda>x y. x + scaleR \<sigma> y) h buf s ?n ?C"
    by (simp only: paired_sample_sum)
  finally show ?thesis .
qed

section \<open>The line filter on normalized filters\<close>

lemma line_loop_cong:
  assumes "\<And>ii. ii < n \<Longrightarrow> body1 (p1 + int ii * s) = body2 (p2 + int ii * s)"
  shows "line_loop body1 s n p1 = line_loop body2 s n p2"
  unfolding line_loop_map using assms by simp

lemma length_line_loop: "length (line_loop body s n p) = n"
  by (simp add: line_loop_map)

lemma length_full_filter:
  "h \<noteq> [] \<Longrightarrow> length (full_filter tag h) = logicalSize (symmetry_string tag) (length h)"
  by (cases tag) (auto simp: full_filter_def logicalSize_def symmetry_string_def)

lemma recognized_symmetry_string: "recognized_symmetry (symmetry_string tag)"
  by (cases tag) (simp_all add: recognized_symmetry_def symmetry_string_def)

lemma symmetry_tag_string: "symmetry_tag (symmetry_string tag) = tag"
  by (cases tag) (simp_all add: symmetry_tag_def symmetry_string_def)

lemma mirror_symmetric_full_filter:
  assumes "odd (length F)" and "rev F = F"
  shows "full_filter EVEN (take (Suc (length F div 2)) F) = F"
proof -
  let ?m = "length F div 2"
  have len: "length F = 2 * ?m + 1" using assms(1) by (metis odd_two_times_div_two_succ)
  let ?h = "take (Suc ?m) F"
  have lh: "length ?h = Suc ?m" using len by simp
  have "butlast ?h = take ?m F" using len by (simp add: butlast_take)
  have "length (?h @ rev (butlast ?h)) = length F" using len lh by simp
  show ?thesis
  proof (rule nth_equalityI)
    show "length (full_filter EVEN ?h) = length F" using len lh by (simp add: full_filter_def)
  next
    fix i assume "i < length (full_filter EVEN ?h)"
    then have i: "i < 2 * ?m + 1" using len lh by (simp add: full_filter_def)
    show "full_filter EVEN ?h ! i = F ! i"
    proof (cases "i < Suc ?m")
      case True
      then show ?thesis using lh by (simp add: full_filter_def nth_append)
    next
      case False
      then have k: "i - Suc ?m < ?m" using i by simp
      have "full_filter EVEN ?h ! i = rev (butlast ?h) ! (i - Suc ?m)"
        using False lh by (simp add: full_filter_def nth_append)
      also have "\<dots> = butlast ?h ! (?m - Suc (i - Suc ?m))"
        using k lh by (simp add: rev_nth)
      also have "\<dots> = F ! (?m - Suc (i - Suc ?m))"
        using k lh by (simp add: nth_butlast)
      also have "?m - Suc (i - Suc ?m) = length F - Suc i" using False i len by simp
      also have "F ! (length F - Suc i) = rev F ! i" using i len by (simp add: rev_nth)
      finally show ?thesis using assms(2) by simp
    qed
  qed
qed

lemma Filter_single:
  "Filter [f] params =
     (case symmetryI f of
        GENERAL \<Rightarrow>
          if unat (sizeI f) \<le> length (filterI f)
          then Some (line_loop (general_sample (filterI f) (inBuffer params) (inStride params) (unat (sizeI f)))
                       (inStride params) (inLength params) (sint (originI f) * inStride params))
          else None
      | EVEN \<Rightarrow>
          if unat (word_of_nat (length (filterI f)) - 1 :: 64 word) < length (filterI f)
          then Some (line_loop (centered_sample (+) (filterI f) (inBuffer params) (inStride params)
                                  (unat (word_of_nat (length (filterI f)) - 1 :: 64 word)))
                       (inStride params) (inLength params)
                       (sint (originI f - (word_of_nat (length (filterI f)) - 1)) * inStride params))
          else None
      | ODD \<Rightarrow>
          if unat (word_of_nat (length (filterI f)) - 1 :: 64 word) < length (filterI f)
          then Some (line_loop (centered_sample (-) (filterI f) (inBuffer params) (inStride params)
                                  (unat (word_of_nat (length (filterI f)) - 1 :: 64 word)))
                       (inStride params) (inLength params)
                       (sint (originI f - (word_of_nat (length (filterI f)) - 1)) * inStride params))
          else None
      | D_EVEN \<Rightarrow>
          if unat ((word_of_nat (length (filterI f)) - 1 :: 64 word) + 1) \<le> length (filterI f)
          then Some (line_loop (paired_sample (+) (filterI f) (inBuffer params) (inStride params)
                                  (unat ((word_of_nat (length (filterI f)) - 1 :: 64 word) + 1)))
                       (inStride params) (inLength params)
                       (sint (originI f - (word_of_nat (length (filterI f)) - 1)) * inStride params))
          else None
      | D_ODD \<Rightarrow>
          if unat ((word_of_nat (length (filterI f)) - 1 :: 64 word) + 1) \<le> length (filterI f)
          then Some (line_loop (paired_sample (-) (filterI f) (inBuffer params) (inStride params)
                                  (unat ((word_of_nat (length (filterI f)) - 1 :: 64 word) + 1)))
                       (inStride params) (inLength params)
                       (sint (originI f - (word_of_nat (length (filterI f)) - 1)) * inStride params))
          else None)"
  unfolding Filter_def Let_def by (simp only: list.size nth_Cons_0 split: FilterSymmetry.split) simp

lemma fsh_word:
  assumes "Suc m < 2 ^ 62"
  shows "(word_of_nat (Suc m) - 1 :: 64 word) = word_of_nat m"
    and "unat (word_of_nat m :: 64 word) = m"
    and "unat (word_of_nat m + 1 :: 64 word) = Suc m"
proof -
  show "(word_of_nat (Suc m) - 1 :: 64 word) = word_of_nat m" by simp
  have "m < 2 ^ 64" using assms by simp
  then show "unat (word_of_nat m :: 64 word) = m" by (rule unat_of_nat64)
  have "Suc m < 2 ^ 64" using assms by simp
  then have "unat (word_of_nat (Suc m) :: 64 word) = Suc m" by (rule unat_of_nat64)
  moreover have "(word_of_nat (Suc m) :: 64 word) = word_of_nat m + 1" by simp
  ultimately show "unat (word_of_nat m + 1 :: 64 word) = Suc m" by (simp only:)
qed

lemma sint_origin_minus_fsh:
  assumes "Suc m < 2 ^ 62" and "unat (og :: 64 word) < 2 ^ 62"
  shows "sint (og - word_of_nat m) = int (unat og) - int m"
proof -
  have "unat (word_of_nat m :: 64 word) < 2 ^ 62"
    unfolding fsh_word(2) [OF assms(1)] using assms(1) by simp
  then have "sint (og - word_of_nat m) = int (unat og) - int (unat (word_of_nat m :: 64 word))"
    by (rule sint_sub64 [OF assms(2)])
  then show ?thesis by (simp only: fsh_word(2) [OF assms(1)])
qed

lemma Filter_GENERAL:
  fixes params :: "('a::real_vector) SeparableLineFilterParameters"
  assumes "length F < 2 ^ 62" and "unat og < 2 ^ 62"
  shows "Filter [\<lparr> filterI = F, sizeI = word_of_nat (length F), originI = og, symmetryI = GENERAL \<rparr>] params
       = Some (line_loop (general_sample F (inBuffer params) (inStride params) (length F))
                 (inStride params) (inLength params) (int (unat og) * inStride params))"
proof -
  have "length F < 2 ^ 64" using assms(1) by simp
  then have u: "unat (word_of_nat (length F) :: 64 word) = length F" by (rule unat_of_nat64)
  have "unat og < 2 ^ 63" using assms(2) by simp
  then have s: "sint og = int (unat og)" by (rule sint_eq_unat64)
  show ?thesis
    by (simp only: Filter_single InternFilter.select_convs FilterSymmetry.case u s) simp
qed

lemma Filter_EVEN:
  fixes params :: "('a::real_vector) SeparableLineFilterParameters"
  assumes "length h = Suc m" and "Suc m < 2 ^ 62" and "unat og < 2 ^ 62"
  shows "Filter [\<lparr> filterI = h, sizeI = sz, originI = og, symmetryI = EVEN \<rparr>] params
       = Some (line_loop (centered_sample (+) h (inBuffer params) (inStride params) m)
                 (inStride params) (inLength params) ((int (unat og) - int m) * inStride params))"
  by (simp only: Filter_single InternFilter.select_convs FilterSymmetry.case assms(1)
        fsh_word [OF assms(2)] sint_origin_minus_fsh [OF assms(2,3)]) simp

lemma Filter_ODD:
  fixes params :: "('a::real_vector) SeparableLineFilterParameters"
  assumes "length h = Suc m" and "Suc m < 2 ^ 62" and "unat og < 2 ^ 62"
  shows "Filter [\<lparr> filterI = h, sizeI = sz, originI = og, symmetryI = ODD \<rparr>] params
       = Some (line_loop (centered_sample (-) h (inBuffer params) (inStride params) m)
                 (inStride params) (inLength params) ((int (unat og) - int m) * inStride params))"
  by (simp only: Filter_single InternFilter.select_convs FilterSymmetry.case assms(1)
        fsh_word [OF assms(2)] sint_origin_minus_fsh [OF assms(2,3)]) simp

lemma Filter_D_EVEN:
  fixes params :: "('a::real_vector) SeparableLineFilterParameters"
  assumes "length h = Suc m" and "Suc m < 2 ^ 62" and "unat og < 2 ^ 62"
  shows "Filter [\<lparr> filterI = h, sizeI = sz, originI = og, symmetryI = D_EVEN \<rparr>] params
       = Some (line_loop (paired_sample (+) h (inBuffer params) (inStride params) (Suc m))
                 (inStride params) (inLength params) ((int (unat og) - int m) * inStride params))"
  by (simp only: Filter_single InternFilter.select_convs FilterSymmetry.case assms(1)
        fsh_word [OF assms(2)] sint_origin_minus_fsh [OF assms(2,3)]) simp

lemma Filter_D_ODD:
  fixes params :: "('a::real_vector) SeparableLineFilterParameters"
  assumes "length h = Suc m" and "Suc m < 2 ^ 62" and "unat og < 2 ^ 62"
  shows "Filter [\<lparr> filterI = h, sizeI = sz, originI = og, symmetryI = D_ODD \<rparr>] params
       = Some (line_loop (paired_sample (-) h (inBuffer params) (inStride params) (Suc m))
                 (inStride params) (inLength params) ((int (unat og) - int m) * inStride params))"
  by (simp only: Filter_single InternFilter.select_convs FilterSymmetry.case assms(1)
        fsh_word [OF assms(2)] sint_origin_minus_fsh [OF assms(2,3)]) simp

lemma general_eq_EVEN:
  fixes buf :: "int \<Rightarrow> 'a::real_vector"
  assumes "length h = Suc m"
  shows "general_sample (full_filter EVEN h) buf s (2 * m + 1) P
       = centered_sample (+) h buf s m (P - int m * s)"
proof -
  have "((*) (1::real)) = id" by (simp add: fun_eq_iff)
  then have a: "map ((*) (1::real)) (rev (butlast h)) = rev (butlast h)" by simp
  have b: "(\<lambda>x y. x + scaleR 1 y) = ((+) :: 'a \<Rightarrow> 'a \<Rightarrow> 'a)" by (simp add: fun_eq_iff)
  show ?thesis using centered_core [OF assms, of 1 buf s P]
    by (simp only: a b full_filter_def FilterSymmetry.case)
qed

lemma general_eq_ODD:
  fixes buf :: "int \<Rightarrow> 'a::real_vector"
  assumes "length h = Suc m"
  shows "general_sample (full_filter ODD h) buf s (2 * m + 1) P
       = centered_sample (-) h buf s m (P - int m * s)"
proof -
  have "((*) (- 1 :: real)) = uminus" by (simp add: fun_eq_iff)
  then have a: "map ((*) (- 1 :: real)) (rev (butlast h)) = map uminus (rev (butlast h))"
    by (simp only:)
  have b: "(\<lambda>x y. x + scaleR (- 1) y) = ((-) :: 'a \<Rightarrow> 'a \<Rightarrow> 'a)" by (simp add: fun_eq_iff)
  show ?thesis using centered_core [OF assms, of "- 1" buf s P]
    by (simp only: a b full_filter_def FilterSymmetry.case)
qed

lemma general_eq_D_EVEN:
  fixes buf :: "int \<Rightarrow> 'a::real_vector"
  assumes "length h = Suc m"
  shows "general_sample (full_filter D_EVEN h) buf s (2 * Suc m) P
       = paired_sample (+) h buf s (Suc m) (P - int m * s)"
proof -
  have "((*) (1::real)) = id" by (simp add: fun_eq_iff)
  then have a: "map ((*) (1::real)) (rev h) = rev h" by simp
  have b: "(\<lambda>x y. x + scaleR 1 y) = ((+) :: 'a \<Rightarrow> 'a \<Rightarrow> 'a)" by (simp add: fun_eq_iff)
  show ?thesis using paired_core [OF assms, of 1 buf s P]
    by (simp only: a b full_filter_def FilterSymmetry.case)
qed

lemma general_eq_D_ODD:
  fixes buf :: "int \<Rightarrow> 'a::real_vector"
  assumes "length h = Suc m"
  shows "general_sample (full_filter D_ODD h) buf s (2 * Suc m) P
       = paired_sample (-) h buf s (Suc m) (P - int m * s)"
proof -
  have "((*) (- 1 :: real)) = uminus" by (simp add: fun_eq_iff)
  then have a: "map ((*) (- 1 :: real)) (rev h) = map uminus (rev h)"
    by (simp only:)
  have b: "(\<lambda>x y. x + scaleR (- 1) y) = ((-) :: 'a \<Rightarrow> 'a \<Rightarrow> 'a)" by (simp add: fun_eq_iff)
  show ?thesis using paired_core [OF assms, of "- 1" buf s P]
    by (simp only: a b full_filter_def FilterSymmetry.case)
qed

text \<open>
  The line filter gives the same line for the explicit filter under GENERAL and
  for its half under the symmetry tag, when both have the origin \<open>og\<close>.
\<close>

lemma Filter_full_eq_half:
  fixes params :: "('a::real_vector) SeparableLineFilterParameters"
  assumes lh: "length h = Suc m" and small: "Suc m < 2 ^ 60" and og: "unat og < 2 ^ 62"
    and sz: "sz = word_of_nat (length (full_filter tag h))"
  shows "Filter [\<lparr> filterI = full_filter tag h, sizeI = word_of_nat (length (full_filter tag h)),
                    originI = og, symmetryI = GENERAL \<rparr>] params
       = Filter [\<lparr> filterI = h, sizeI = sz, originI = og, symmetryI = tag \<rparr>] params"
    and "\<exists>out. Filter [\<lparr> filterI = h, sizeI = sz, originI = og, symmetryI = tag \<rparr>] params = Some out
           \<and> length out = inLength params"
proof -
  let ?F = "full_filter tag h"
  let ?buf = "inBuffer params" and ?s = "inStride params" and ?len = "inLength params"
  have m62: "Suc m < 2 ^ 62" using small by simp
  have lF: "length ?F \<le> 2 * Suc m" using lh by (cases tag) (simp_all add: full_filter_def)
  have F62: "length ?F < 2 ^ 62" using lF small by simp
  note G = Filter_GENERAL [OF F62 og, of params]
  have shift: "\<And>ii. int (unat og) * ?s + int ii * ?s - int m * ?s
      = (int (unat og) - int m) * ?s + int ii * ?s"
    by (simp add: algebra_simps)
  have eq: "Filter [\<lparr> filterI = ?F, sizeI = word_of_nat (length ?F), originI = og,
                       symmetryI = GENERAL \<rparr>] params
       = Filter [\<lparr> filterI = h, sizeI = sz, originI = og, symmetryI = tag \<rparr>] params
     \<and> (\<exists>out. Filter [\<lparr> filterI = h, sizeI = sz, originI = og, symmetryI = tag \<rparr>] params = Some out
           \<and> length out = ?len)"
  proof (cases tag)
    case GENERAL
    have hF: "?F = h" using GENERAL by (simp add: full_filter_def)
    have hF': "full_filter GENERAL h = h" by (simp add: full_filter_def)
    note G' = G [unfolded GENERAL hF']
    show ?thesis unfolding sz GENERAL hF' G'
      by (simp add: length_line_loop)
  next
    case EVEN
    have L: "length (full_filter EVEN h) = 2 * m + 1" using lh by (simp add: full_filter_def)
    have "line_loop (general_sample (full_filter EVEN h) ?buf ?s (length (full_filter EVEN h)))
            ?s ?len (int (unat og) * ?s)
        = line_loop (centered_sample (+) h ?buf ?s m) ?s ?len ((int (unat og) - int m) * ?s)"
      unfolding L
      by (rule line_loop_cong) (simp only: general_eq_EVEN [OF lh] shift)
    then show ?thesis
      unfolding EVEN G [unfolded EVEN] Filter_EVEN [OF lh m62 og]
      by (simp add: length_line_loop)
  next
    case ODD
    have L: "length (full_filter ODD h) = 2 * m + 1" using lh by (simp add: full_filter_def)
    have "line_loop (general_sample (full_filter ODD h) ?buf ?s (length (full_filter ODD h)))
            ?s ?len (int (unat og) * ?s)
        = line_loop (centered_sample (-) h ?buf ?s m) ?s ?len ((int (unat og) - int m) * ?s)"
      unfolding L
      by (rule line_loop_cong) (simp only: general_eq_ODD [OF lh] shift)
    then show ?thesis
      unfolding ODD G [unfolded ODD] Filter_ODD [OF lh m62 og]
      by (simp add: length_line_loop)
  next
    case D_EVEN
    have L: "length (full_filter D_EVEN h) = 2 * Suc m" using lh by (simp add: full_filter_def)
    have "line_loop (general_sample (full_filter D_EVEN h) ?buf ?s (length (full_filter D_EVEN h)))
            ?s ?len (int (unat og) * ?s)
        = line_loop (paired_sample (+) h ?buf ?s (Suc m)) ?s ?len ((int (unat og) - int m) * ?s)"
      unfolding L
      by (rule line_loop_cong) (simp only: general_eq_D_EVEN [OF lh] shift)
    then show ?thesis
      unfolding D_EVEN G [unfolded D_EVEN] Filter_D_EVEN [OF lh m62 og]
      by (simp add: length_line_loop)
  next
    case D_ODD
    have L: "length (full_filter D_ODD h) = 2 * Suc m" using lh by (simp add: full_filter_def)
    have "line_loop (general_sample (full_filter D_ODD h) ?buf ?s (length (full_filter D_ODD h)))
            ?s ?len (int (unat og) * ?s)
        = line_loop (paired_sample (-) h ?buf ?s (Suc m)) ?s ?len ((int (unat og) - int m) * ?s)"
      unfolding L
      by (rule line_loop_cong) (simp only: general_eq_D_ODD [OF lh] shift)
    then show ?thesis
      unfolding D_ODD G [unfolded D_ODD] Filter_D_ODD [OF lh m62 og]
      by (simp add: length_line_loop)
  qed
  show "Filter [\<lparr> filterI = ?F, sizeI = word_of_nat (length ?F), originI = og,
                       symmetryI = GENERAL \<rparr>] params
       = Filter [\<lparr> filterI = h, sizeI = sz, originI = og, symmetryI = tag \<rparr>] params"
    using eq by blast
  show "\<exists>out. Filter [\<lparr> filterI = h, sizeI = sz, originI = og, symmetryI = tag \<rparr>] params = Some out
           \<and> length out = ?len"
    using eq by blast
qed

lemma logicalSize_general: "logicalSize ''general'' n = n"
  by (simp add: logicalSize_def)

text \<open>
  The normalizer gives the explicit filter under "general" and its half under the
  symmetry string the same logical size and the same origin.
\<close>

lemma Intern_full_and_half:
  assumes lh: "length h = Suc m" and small: "Suc m < 2 ^ 60"
    and gen: "InternOneDimensionalFilter
                \<lparr> filterF = full_filter tag h, originF = orig, symmetryF = ''general'' \<rparr> = Inr g"
  shows "g = \<lparr> filterI = full_filter tag h, sizeI = word_of_nat (length (full_filter tag h)),
               originI = originI g, symmetryI = GENERAL \<rparr>"
    and "InternOneDimensionalFilter \<lparr> filterF = h, originF = orig, symmetryF = symmetry_string tag \<rparr>
           = Inr \<lparr> filterI = h, sizeI = word_of_nat (length (full_filter tag h)),
                    originI = originI g, symmetryI = tag \<rparr>"
    and "unat (originI g) < 2 ^ 62"
proof -
  let ?F = "full_filter tag h"
  let ?L = "length ?F"
  have hne: "h \<noteq> []" using lh by auto
  have Lh: "logicalSize (symmetry_string tag) (length h) = ?L"
    using length_full_filter [OF hne] by simp
  have Lpos: "0 < ?L" using lh by (cases tag) (simp_all add: full_filter_def)
  then have Fne: "?F \<noteq> []" by auto
  have lF: "?L \<le> 2 * Suc m" using lh by (cases tag) (simp_all add: full_filter_def)
  have F62: "?L < 2 ^ 62" using lF small by simp
  have h62: "length h < 2 ^ 62" using lh small by simp
  have L64: "?L < 2 ^ 64" using F62 by simp
  have uH: "unat (word_of_nat (?L div 2) :: 64 word) = ?L div 2"
    using L64 by (intro unat_of_nat64) simp
  have rg: "recognized_symmetry ''general''" by (simp add: recognized_symmetry_def)
  have tg: "symmetry_tag ''general'' = GENERAL" by (simp add: symmetry_tag_def)
  note G = InternOneDimensionalFilter_nonempty
    [of "\<lparr> filterF = ?F, originF = orig, symmetryF = ''general'' \<rparr>",
      simplified OneDimensionalFilter.select_convs logicalSize_general tg Let_def, OF Fne F62 rg]
  note H = InternOneDimensionalFilter_nonempty
    [of "\<lparr> filterF = h, originF = orig, symmetryF = symmetry_string tag \<rparr>",
      simplified OneDimensionalFilter.select_convs Lh symmetry_tag_string Let_def,
      OF hne h62 recognized_symmetry_string]
  show "g = \<lparr> filterI = ?F, sizeI = word_of_nat ?L, originI = originI g, symmetryI = GENERAL \<rparr>"
    using gen unfolding G by (auto split: if_splits)
  show "InternOneDimensionalFilter \<lparr> filterF = h, originF = orig, symmetryF = symmetry_string tag \<rparr>
           = Inr \<lparr> filterI = h, sizeI = word_of_nat ?L, originI = originI g, symmetryI = tag \<rparr>"
    using gen unfolding G H by (auto split: if_splits)
  have "unat (originI g) < ?L"
    using gen uH Lpos unfolding G by (auto split: if_splits simp del: unsigned_of_nat)
  then show "unat (originI g) < 2 ^ 62" using F62 by simp
qed

section \<open>Symmetry equivalence of the line filter\<close>

text \<open>
  C1: for a non-empty half \<open>h\<close> and its full, explicit filter \<open>F\<close> (for EVEN: any
  odd-length \<open>F\<close> that is mirror-symmetric about its center, \<open>h\<close> being the center
  coefficient and one side), the line filter run with \<open>F\<close> under "general" and
  with \<open>h\<close> under the symmetry string, with the same origin argument, are both
  defined and write the same value at every output sample. The normalizer gives
  both the same origin. Samples are elements of a real vector space, so the
  equality is the one of exact arithmetic; coefficient arrays have fewer than
  \<open>2 ^ 60\<close> entries.
\<close>

theorem C1_symmetry_equivalence:
  fixes params :: "('a::real_vector) SeparableLineFilterParameters"
  assumes ne: "h \<noteq> []" and len: "length h < 2 ^ 60"
    and full: "F = full_filter tag h
               \<or> (tag = EVEN \<and> odd (length F) \<and> rev F = F \<and> h = take (Suc (length F div 2)) F)"
    and gen: "InternOneDimensionalFilter
                \<lparr> filterF = F, originF = orig, symmetryF = ''general'' \<rparr> = Inr g"
  shows "\<exists>e out.
           InternOneDimensionalFilter
             \<lparr> filterF = h, originF = orig, symmetryF = symmetry_string tag \<rparr> = Inr e
         \<and> symmetryI e = tag \<and> originI e = originI g
         \<and> Filter [g] params = Some out \<and> Filter [e] params = Some out
         \<and> length out = inLength params"
proof -
  have F: "F = full_filter tag h"
    using full mirror_symmetric_full_filter [of F] by auto
  obtain m where lh: "length h = Suc m" using ne by (cases h) auto
  have small: "Suc m < 2 ^ 60" using len lh by simp
  note I = Intern_full_and_half [OF lh small gen [unfolded F]]
  let ?e = "\<lparr> filterI = h, sizeI = word_of_nat (length (full_filter tag h)),
               originI = originI g, symmetryI = tag \<rparr>"
  note E = Filter_full_eq_half [OF lh small I(3) refl, of tag params]
  from E(2) obtain out where out: "Filter [?e] params = Some out" "length out = inLength params"
    by blast
  have "Filter [g] params = Some out"
    using E(1) out(1) I(1) by simp
  with I(2) out show ?thesis by auto
qed

theorem C1_symmetry_equivalence_witness:
  "InternOneDimensionalFilter \<lparr> filterF = [1, 2, 1], originF = - 1, symmetryF = ''general'' \<rparr>
     = Inr \<lparr> filterI = [1, 2, 1], sizeI = 3, originI = 1, symmetryI = GENERAL \<rparr>
   \<and> (\<exists>e out.
         InternOneDimensionalFilter \<lparr> filterF = [1, 2], originF = - 1, symmetryF = ''even'' \<rparr> = Inr e
       \<and> symmetryI e = EVEN \<and> originI e = 1
       \<and> Filter [\<lparr> filterI = [1, 2, 1], sizeI = 3, originI = 1, symmetryI = GENERAL \<rparr>]
            \<lparr> inBuffer = real_of_int, inLength = 2, inStride = 1, dimension = 0,
              tensorToSpatial = False \<rparr> = Some out
       \<and> Filter [e]
            \<lparr> inBuffer = real_of_int, inLength = 2, inStride = 1, dimension = 0,
              tensorToSpatial = False \<rparr> = Some out
       \<and> length out = 2)"
proof -
  have g: "InternOneDimensionalFilter \<lparr> filterF = [1, 2, 1], originF = - 1, symmetryF = ''general'' \<rparr>
     = Inr \<lparr> filterI = [1, 2, 1], sizeI = 3, originI = 1, symmetryI = GENERAL \<rparr>"
    by (simp add: InternOneDimensionalFilter_def)
  have f: "[1, 2, 1] = full_filter EVEN [1, 2]
           \<or> (EVEN = EVEN \<and> odd (length [1, 2, 1 :: real]) \<and> rev [1, 2, 1 :: real] = [1, 2, 1]
               \<and> [1, 2] = take (Suc (length [1, 2, 1 :: real] div 2)) [1, 2, 1 :: real])"
    by (simp add: full_filter_def)
  have n: "[1, 2 :: real] \<noteq> []" and l: "length [1, 2 :: real] < 2 ^ 60" by simp_all
  show ?thesis
    using g C1_symmetry_equivalence [OF n l f g,
      of "\<lparr> inBuffer = real_of_int, inLength = 2, inStride = 1, dimension = 0,
              tensorToSpatial = False \<rparr>"]
    by (simp add: symmetry_string_def)
qed

section \<open>Claims about the orchestrator\<close>

text \<open>
  For a normalized filter of positive logical size the border is the one of the
  specification: the origin is below the size, so the unsigned subtraction does
  not wrap.
\<close>

lemma filter_border_positive_size:
  assumes "unat (originI f) < unat (sizeI f)"
  shows "int (unat (filter_border f))
       = max (int (unat (originI f))) (int (unat (sizeI f)) - int (unat (originI f)) - 1)"
proof -
  let ?b = "originI f" and ?sz = "sizeI f"
  have le: "?b \<le> ?sz" using assms by (simp add: word_le_nat_alt)
  have u1: "unat (?sz - ?b) = unat ?sz - unat ?b" using le by (rule unat_sub)
  have "1 \<le> ?sz - ?b" using assms u1 by (simp add: word_le_nat_alt)
  then have u2: "unat (?sz - ?b - 1) = unat (?sz - ?b) - unat (1 :: 64 word)" by (rule unat_sub)
  have u: "unat (?sz - ?b - 1) = unat ?sz - unat ?b - 1" using u1 u2 by simp
  have "unat (max ?b (?sz - ?b - 1)) = max (unat ?b) (unat (?sz - ?b - 1))"
    by (simp add: max_def word_le_nat_alt)
  then have "unat (filter_border f) = max (unat ?b) (unat ?sz - unat ?b - 1)"
    unfolding filter_border_def Let_def u .
  then have "int (unat (filter_border f)) = max (int (unat ?b)) (int (unat ?sz - unat ?b - 1))"
    by (simp only: of_nat_max)
  moreover have "int (unat ?sz - unat ?b - 1) = int (unat ?sz) - int (unat ?b) - 1"
    using assms by linarith
  ultimately show ?thesis by (simp only:)
qed

text \<open>
  C2 at the input the claim singles out, a single broadcast filter with no
  coefficients on a forged two-dimensional image: the normalized filter has size
  0 and origin 0, \<open>sz - b - 1\<close> wraps to \<open>2 ^ 64 - 1\<close>, and that value is the border
  of every dimension, where the claim says \<open>max (0, 0 - 0 - 1) = 0\<close>.
\<close>

theorem C2_border_of_empty_filter:
  "SeparableConvolution_arguments
     \<lparr> IsForged = True, Sizes = [4, 3], DataTypeOf = DT_UINT16, Samples = (\<lambda>c. 0 :: real) \<rparr>
     [\<lparr> filterF = [], originF = - 1, symmetryF = [] \<rparr>] []
   = Inr \<lparr> filterData = [\<lparr> filterI = [], sizeI = 0, originI = 0, symmetryI = GENERAL \<rparr>],
           border = [18446744073709551615, 18446744073709551615],
           process = [False, False] \<rparr>
   \<and> max (0 :: int) (0 - 0 - 1) = 0"
  by (simp add: SeparableConvolution_arguments_def Dimensionality_def
      InternOneDimensionalFilter_def filter_border_def IsMeaninglessFilter_def)

text \<open>
  C6 at a forged image of sizes \<open>[1, 5]\<close> with all dimensions to be processed.
  With one broadcast filter \<open>[1, 2, 1]\<close> the dimension of extent 1 stays marked
  for processing; with the same filter given once per dimension it is marked as
  not processed.
\<close>

theorem C6_extent_one_broadcast:
  "map_sum id process
     (SeparableConvolution_arguments
        \<lparr> IsForged = True, Sizes = [1, 5], DataTypeOf = DT_UINT16, Samples = (\<lambda>c. 0 :: real) \<rparr>
        [\<lparr> filterF = [1, 2, 1], originF = - 1, symmetryF = ''general'' \<rparr>] [])
   = Inr [True, True]
   \<and> map_sum id process
     (SeparableConvolution_arguments
        \<lparr> IsForged = True, Sizes = [1, 5], DataTypeOf = DT_UINT16, Samples = (\<lambda>c. 0 :: real) \<rparr>
        [\<lparr> filterF = [1, 2, 1], originF = - 1, symmetryF = ''general'' \<rparr>,
         \<lparr> filterF = [1, 2, 1], originF = - 1, symmetryF = ''general'' \<rparr>] [])
   = Inr [False, True]"
  by (simp add: SeparableConvolution_arguments_def Dimensionality_def
      InternOneDimensionalFilter_def filter_border_def IsMeaninglessFilter_def)

lemma intern_all_Inr:
  assumes "\<forall>f \<in> set fs. \<exists>g. InternOneDimensionalFilter f = Inr g \<and> P g"
  shows "\<exists>gs. intern_all fs = Inr gs \<and> length gs = length fs \<and> (\<forall>g \<in> set gs. P g)"
  using assms
proof (induction fs)
  case Nil
  then show ?case by simp
next
  case (Cons f fs)
  have "\<exists>g. InternOneDimensionalFilter f = Inr g \<and> P g" using Cons.prems by simp
  then obtain g where g: "InternOneDimensionalFilter f = Inr g" "P g" by blast
  have "\<forall>f \<in> set fs. \<exists>g. InternOneDimensionalFilter f = Inr g \<and> P g" using Cons.prems by simp
  then have "\<exists>gs. intern_all fs = Inr gs \<and> length gs = length fs \<and> (\<forall>g \<in> set gs. P g)"
    by (rule Cons.IH)
  then obtain gs where gs: "intern_all fs = Inr gs" "length gs = length fs" "\<forall>g \<in> set gs. P g"
    by blast
  have "intern_all (f # fs) = Inr (g # gs)" using g(1) gs(1) by simp
  moreover have "length (g # gs) = length (f # fs)" using gs(2) by simp
  moreover have "\<forall>x \<in> set (g # gs). P x" using g(2) gs(3) by simp
  ultimately show ?case by blast
qed

lemma fold_clear_all:
  assumes "\<And>ii. ii < n \<Longrightarrow> c ii" and "n \<le> length p"
  shows "fold (\<lambda>ii p. if c ii then p[ii := False] else p) [0..<n] p = replicate n False @ drop n p"
  using assms
proof (induction n)
  case 0
  then show ?case by simp
next
  case (Suc n)
  let ?step = "\<lambda>ii p. if c ii then p[ii := False] else p"
  have n: "n < length p" using Suc.prems(2) by simp
  have cn: "c n" using Suc.prems(1) by simp
  have IH: "fold ?step [0..<n] p = replicate n False @ drop n p"
    using Suc.IH Suc.prems n by simp
  have d: "drop n p = p ! n # drop (Suc n) p" using n by (rule Cons_nth_drop_Suc [symmetric])
  have "fold ?step [0..<Suc n] p = ?step n (fold ?step [0..<n] p)" by simp
  also have "\<dots> = (replicate n False @ drop n p)[n := False]"
    unfolding IH using cn by simp
  also have "\<dots> = replicate n False @ (drop n p)[0 := False]"
    by (simp add: list_update_append)
  also have "\<dots> = replicate n False @ False # drop (Suc n) p"
    unfolding d by simp
  also have "\<dots> = replicate (Suc n) False @ drop (Suc n) p"
    by (simp add: replicate_app_Cons_same)
  finally show ?case .
qed

lemma fold_skip_all:
  assumes "\<And>d. d \<in> set ds \<Longrightarrow> \<not> proc ! d"
  shows "fold (\<lambda>d img. if proc ! d then f d img else img) ds img = img"
  using assms by (induction ds arbitrary: img) simp_all

lemma Framework_Separable_nothing:
  assumes "length proc = Dimensionality inp" and "\<forall>b \<in> set proc. \<not> b"
  shows "Framework_Separable processDim inp dtype proc = inp \<lparr> DataTypeOf := dtype \<rparr>"
proof -
  have "\<And>d. d \<in> set [0..<Dimensionality inp] \<Longrightarrow> \<not> proc ! d"
    using assms by (simp add: all_set_conv_all_nth)
  then show ?thesis unfolding Framework_Separable_def by (rule fold_skip_all)
qed

text \<open>
  When every filter of the call is a no-op, the \<open>process\<close> array that reaches
  the line engine is false everywhere.
\<close>

lemma SeparableConvolution_arguments_noop:
  assumes forged: "IsForged inp" and dims: "1 \<le> Dimensionality inp"
    and nfilters: "length filterArray = 1 \<or> length filterArray = Dimensionality inp"
    and nprocess: "process0 = [] \<or> length process0 = Dimensionality inp"
    and noop: "\<forall>f \<in> set filterArray. \<exists>g. InternOneDimensionalFilter f = Inr g \<and>
                 (sizeI g = 0 \<or> (sizeI g = 1 \<and> filterI g = [1]))"
  shows "\<exists>args. SeparableConvolution_arguments inp filterArray process0 = Inr args
           \<and> process args = replicate (Dimensionality inp) False"
proof -
  let ?n = "Dimensionality inp"
  have noop': "\<forall>f \<in> set filterArray. \<exists>g. InternOneDimensionalFilter f = Inr g \<and> IsMeaninglessFilter g"
    using noop by (fastforce simp: IsMeaninglessFilter_def)
  from intern_all_Inr [OF noop'] obtain fd where fd: "intern_all filterArray = Inr fd"
    "length fd = length filterArray" "\<forall>g \<in> set fd. IsMeaninglessFilter g"
    by blast
  define process1 where "process1 = (if process0 = [] then replicate ?n True else process0)"
  have l1: "length process1 = ?n" using nprocess by (auto simp: process1_def)
  have p1: "(if process0 = [] then Inr (replicate ?n True)
             else if length process0 \<noteq> ?n then Inl ARRAY_PARAMETER_WRONG_LENGTH
             else Inr process0) = (Inr process1 :: error + bool list)"
    using nprocess by (auto simp: process1_def)
  have final: "(if length fd = 1 then
                  (if IsMeaninglessFilter (fd ! 0) then replicate (length process1) False else process1)
                else fold (\<lambda>ii p. if IsMeaninglessFilter (fd ! ii) \<or> Sizes inp ! ii \<le> 1
                                    then p[ii := False] else p) [0..<?n] process1)
               = replicate ?n False"
  proof (cases "length fd = 1")
    case True
    then have "fd ! 0 \<in> set fd" by (cases fd) auto
    then show ?thesis using True fd(3) l1 by simp
  next
    case False
    then have len: "length fd = ?n" using fd(2) nfilters by auto
    have "fold (\<lambda>ii p. if IsMeaninglessFilter (fd ! ii) \<or> Sizes inp ! ii \<le> 1
                         then p[ii := False] else p) [0..<?n] process1
        = replicate ?n False @ drop ?n process1"
      by (rule fold_clear_all) (use fd(3) len l1 in auto)
    then show ?thesis using False l1 by simp
  qed
  have "SeparableConvolution_arguments inp filterArray process0
      = Inr \<lparr> filterData = fd,
               border = (if length fd = 1 then replicate ?n (filter_border (fd ! 0))
                         else map (\<lambda>ii. filter_border (fd ! ii)) [0..<?n]),
               process = replicate ?n False \<rparr>"
    unfolding SeparableConvolution_arguments_def Let_def
    by (simp only: fd(1) p1 sum.case final) (use forged dims nfilters in simp)
  then show ?thesis by simp
qed

text \<open>
  C3: on a forged image of at least one dimension, with a well-formed call (one
  filter or one per dimension, an empty or full-length \<open>process\<close> array, boundary
  conditions that parse), if every filter is a no-op (logical size 0, or logical
  size 1 with the single coefficient 1), \<open>SeparableConvolution\<close> returns the image
  with its sizes and every sample unchanged, in the flex sample type, whatever
  the boundary condition and whatever processing a dimension would do. The line
  engine is the one modelled from the specification.
\<close>

theorem C3_noop_filters_leave_image:
  assumes forged: "IsForged inp" and dims: "1 \<le> Dimensionality inp"
    and nfilters: "length filterArray = 1 \<or> length filterArray = Dimensionality inp"
    and nprocess: "process0 = [] \<or> length process0 = Dimensionality inp"
    and noop: "\<forall>f \<in> set filterArray. \<exists>g. InternOneDimensionalFilter f = Inr g \<and>
                 (sizeI g = 0 \<or> (sizeI g = 1 \<and> filterI g = [1]))"
    and bc: "StringArrayToBoundaryConditionArray boundaryCondition = Inr bc"
  shows "SeparableConvolution StringArrayToBoundaryConditionArray SuggestFlex
           (\<lambda>img dtype proc brd bc fd. Framework_Separable (processDim brd bc fd) img dtype proc)
           inp filterArray boundaryCondition process0
         = Inr (inp \<lparr> DataTypeOf := SuggestFlex (DataTypeOf inp) \<rparr>)"
proof -
  from SeparableConvolution_arguments_noop [OF forged dims nfilters nprocess noop]
  obtain args where args: "SeparableConvolution_arguments inp filterArray process0 = Inr args"
    "process args = replicate (Dimensionality inp) False"
    by blast
  have "Framework_Separable (processDim (border args) bc (filterData args)) inp
          (SuggestFlex (DataTypeOf inp)) (process args)
        = inp \<lparr> DataTypeOf := SuggestFlex (DataTypeOf inp) \<rparr>"
    by (rule Framework_Separable_nothing) (simp_all add: args(2))
  then show ?thesis by (simp add: SeparableConvolution_def args(1) bc)
qed

theorem C3_noop_filters_leave_image_witness:
  "SeparableConvolution (\<lambda>s. Inr s) (\<lambda>t. DT_SFLOAT)
     (\<lambda>img dtype proc brd bc fd.
        Framework_Separable (\<lambda>d im. im \<lparr> Samples := (\<lambda>c. 0) \<rparr>) img dtype proc)
     \<lparr> IsForged = True, Sizes = [4, 3], DataTypeOf = DT_UINT16, Samples = (\<lambda>c. real (sum_list c)) \<rparr>
     [\<lparr> filterF = [1], originF = - 1, symmetryF = ''even'' \<rparr>] [''periodic''] [True, True]
   = Inr \<lparr> IsForged = True, Sizes = [4, 3], DataTypeOf = DT_SFLOAT,
           Samples = (\<lambda>c. real (sum_list c)) \<rparr>"
proof -
  have i: "InternOneDimensionalFilter \<lparr> filterF = [1], originF = - 1, symmetryF = ''even'' \<rparr>
      = Inr \<lparr> filterI = [1], sizeI = 1, originI = 0, symmetryI = EVEN \<rparr>"
    by (simp add: InternOneDimensionalFilter_def)
  show ?thesis
    using C3_noop_filters_leave_image
      [of "\<lparr> IsForged = True, Sizes = [4, 3], DataTypeOf = DT_UINT16,
             Samples = (\<lambda>c. real (sum_list c)) \<rparr>"
          "[\<lparr> filterF = [1], originF = - 1, symmetryF = ''even'' \<rparr>]" "[True, True]"
          "\<lambda>s. Inr s" "[''periodic'']" "[''periodic'']" "\<lambda>t. DT_SFLOAT"
          "\<lambda>brd bc fd d im. im \<lparr> Samples := (\<lambda>c. 0) \<rparr>"]
    by (simp add: i Dimensionality_def)
qed

section \<open>Claims about the frequency-domain convolution\<close>

lemma sizes_le_extent:
  "sizes_le a b \<longleftrightarrow> length a = length b \<and> \<not> extent_exceeds a b"
  by (auto simp: sizes_le_def extent_exceeds_def list_all_iff list_ex_iff not_less)

lemma length_ExpandDimensionality:
  "length (ExpandDimensionality sz n) = max (length sz) n"
  by (simp add: ExpandDimensionality_def)

lemma ExpandDimensionality_same: "n \<le> length sz \<Longrightarrow> ExpandDimensionality sz n = sz"
  by (simp add: ExpandDimensionality_def)

text \<open>The size check of \<open>ConvolveFT\<close>, on the sizes of the filter after the expansion.\<close>

lemma ConvolveFT_size_check:
  "sizes_le (if Dimensionality filt < Dimensionality inp
             then ExpandDimensionality (Sizes filt) (Dimensionality inp) else Sizes filt) (Sizes inp)
   \<longleftrightarrow> \<not> (Dimensionality inp < Dimensionality filt
          \<or> extent_exceeds (ExpandDimensionality (Sizes filt) (Dimensionality inp)) (Sizes inp))"
proof (cases "Dimensionality filt < Dimensionality inp")
  case True
  then show ?thesis
    by (auto simp: sizes_le_extent length_ExpandDimensionality Dimensionality_def)
next
  case False
  then have "ExpandDimensionality (Sizes filt) (Dimensionality inp) = Sizes filt"
    by (intro ExpandDimensionality_same) (simp add: Dimensionality_def)
  then show ?thesis using False
    by (auto simp: sizes_le_extent Dimensionality_def)
qed

text \<open>\<open>ConvolveFT\<close> on forged images that pass the size check, written out.\<close>

lemma ConvolveFT_success:
  assumes "IsForged inp" and "IsForged filt"
    and "sizes_le (if Dimensionality filt < Dimensionality inp
                   then ExpandDimensionality (Sizes filt) (Dimensionality inp) else Sizes filt)
           (Sizes inp)"
  shows "ConvolveFT IsReal inp filt inRep filterRep outRep =
    Inr \<lparr> calls =
            (if inRep = ''spatial'' then [FourierTransform_in] else [])
            @ (if Dimensionality filt < Dimensionality inp
               then [ExpandDimensionality_filter (Dimensionality inp)] else [])
            @ [Pad_filter (Sizes inp)]
            @ (if filterRep = ''spatial'' then [FourierTransform_filter] else [])
            @ [MultiplySampleWise]
            @ (if outRep = ''spatial''
               then [FourierTransform_out
                       (if inRep = ''spatial'' \<and> IsReal (DataTypeOf inp)
                           \<and> filterRep = ''spatial'' \<and> IsReal (DataTypeOf filt)
                        then insert ''real'' {''inverse''} else {''inverse''})]
               else []),
          realFlag = (inRep = ''spatial'' \<and> IsReal (DataTypeOf inp)
                      \<and> filterRep = ''spatial'' \<and> IsReal (DataTypeOf filt)) \<rparr>"
proof (cases "Dimensionality filt < Dimensionality inp")
  case True
  then show ?thesis using assms by (simp add: ConvolveFT_def Let_def)
next
  case False
  then show ?thesis using assms by (simp add: ConvolveFT_def Let_def)
qed

lemma ConvolveFT_failure:
  "ConvolveFT IsReal inp filt inRep filterRep outRep = Inl e \<longleftrightarrow>
     (e = IMAGE_NOT_FORGED \<and> (\<not> IsForged inp \<or> \<not> IsForged filt))
   \<or> (e = SIZES_DONT_MATCH \<and> IsForged inp \<and> IsForged filt
       \<and> \<not> sizes_le (if Dimensionality filt < Dimensionality inp
                       then ExpandDimensionality (Sizes filt) (Dimensionality inp) else Sizes filt)
              (Sizes inp))"
  by (auto simp: ConvolveFT_def Let_def split: if_splits prod.splits)

text \<open>
  C8: whenever \<open>ConvolveFT\<close> gets past its checks, the flag \<open>real\<close> is true at the
  end if and only if every operand given as "spatial" has a real sample type and
  no operand is given in another (frequency) representation; the last transform
  is invoked only for a "spatial" output, always with "inverse", and with "real"
  exactly when the flag is true.
\<close>

theorem C8_real_flag:
  assumes "IsForged inp" and "IsForged filt"
    and "sizes_le (if Dimensionality filt < Dimensionality inp
                   then ExpandDimensionality (Sizes filt) (Dimensionality inp) else Sizes filt)
           (Sizes inp)"
  shows "\<exists>run. ConvolveFT IsReal inp filt inRep filterRep outRep = Inr run
     \<and> (realFlag run \<longleftrightarrow>
          (inRep = ''spatial'' \<longrightarrow> IsReal (DataTypeOf inp))
        \<and> (filterRep = ''spatial'' \<longrightarrow> IsReal (DataTypeOf filt))
        \<and> inRep = ''spatial'' \<and> filterRep = ''spatial'')
     \<and> (outRep = ''spatial'' \<longrightarrow>
          FourierTransform_out (if realFlag run then insert ''real'' {''inverse''} else {''inverse''})
            \<in> set (calls run))
     \<and> (\<forall>opts. FourierTransform_out opts \<in> set (calls run) \<longrightarrow>
          outRep = ''spatial'' \<and> ''inverse'' \<in> opts \<and> (''real'' \<in> opts \<longleftrightarrow> realFlag run))"
  unfolding ConvolveFT_success [OF assms] by (auto split: if_splits)

theorem C8_real_flag_witness:
  "ConvolveFT (\<lambda>t. t \<noteq> DT_SCOMPLEX \<and> t \<noteq> DT_DCOMPLEX)
     \<lparr> IsForged = True, Sizes = [8, 6], DataTypeOf = DT_UINT16, Samples = (\<lambda>c. 0 :: real) \<rparr>
     \<lparr> IsForged = True, Sizes = [3], DataTypeOf = DT_DFLOAT, Samples = (\<lambda>c. 0 :: real) \<rparr>
     ''spatial'' ''spatial'' ''spatial''
   = Inr \<lparr> calls = [FourierTransform_in, ExpandDimensionality_filter 2, Pad_filter [8, 6],
                     FourierTransform_filter, MultiplySampleWise,
                     FourierTransform_out {''real'', ''inverse''}],
           realFlag = True \<rparr>"
  using C8_real_flag [of
     "\<lparr> IsForged = True, Sizes = [8, 6], DataTypeOf = DT_UINT16, Samples = (\<lambda>c. 0 :: real) \<rparr>"
     "\<lparr> IsForged = True, Sizes = [3], DataTypeOf = DT_DFLOAT, Samples = (\<lambda>c. 0 :: real) \<rparr>"
     "\<lambda>t. t \<noteq> DT_SCOMPLEX \<and> t \<noteq> DT_DCOMPLEX" "''spatial''" "''spatial''" "''spatial''"]
  by (simp add: ConvolveFT_def Dimensionality_def ExpandDimensionality_def sizes_le_def)

text \<open>
  C9, as stated: the size-mismatch error is raised if and only if the (expanded)
  filter's extent exceeds the input's extent in some dimension. This fails for a
  filter of more dimensions than the input: sizes \<open>[3, 1]\<close> against an input of
  sizes \<open>[5]\<close> exceed it nowhere, and the call fails, as the comment at the check
  says ("also throws if dimensionalities don't match").
\<close>

theorem C9_more_dimensions_counterexample:
  "ConvolveFT (\<lambda>t. t \<noteq> DT_SCOMPLEX \<and> t \<noteq> DT_DCOMPLEX)
     \<lparr> IsForged = True, Sizes = [5], DataTypeOf = DT_DFLOAT, Samples = (\<lambda>c. 0 :: real) \<rparr>
     \<lparr> IsForged = True, Sizes = [3, 1], DataTypeOf = DT_DFLOAT, Samples = (\<lambda>c. 0 :: real) \<rparr>
     ''spatial'' ''spatial'' ''spatial''
   = Inl SIZES_DONT_MATCH
   \<and> \<not> extent_exceeds (ExpandDimensionality [3, 1] 1) [5]"
  by (simp add: ConvolveFT_def Dimensionality_def ExpandDimensionality_def sizes_le_def
      extent_exceeds_def)

text \<open>
  C9, amended: for forged images, \<open>ConvolveFT\<close> fails with the size-mismatch
  error if and only if the filter has more dimensions than the input or the
  filter, expanded with trailing singleton dimensions to the input's
  dimensionality, exceeds the input's extent in some dimension. Otherwise it
  returns, and the operations on the filter are, in this order: the expansion
  (only when the filter has fewer dimensions), the zero-padding to the input's
  sizes, and the forward transform (only for a "spatial" filter): the filter is
  zero-padded to the input's shape before any forward transform of it.
\<close>

theorem C9_size_check_and_padding:
  assumes "IsForged inp" and "IsForged filt"
  shows "(ConvolveFT IsReal inp filt inRep filterRep outRep = Inl SIZES_DONT_MATCH
          \<longleftrightarrow> Dimensionality inp < Dimensionality filt
              \<or> extent_exceeds (ExpandDimensionality (Sizes filt) (Dimensionality inp)) (Sizes inp))
       \<and> (\<not> (Dimensionality inp < Dimensionality filt
              \<or> extent_exceeds (ExpandDimensionality (Sizes filt) (Dimensionality inp)) (Sizes inp))
          \<longrightarrow> (\<exists>run. ConvolveFT IsReal inp filt inRep filterRep outRep = Inr run
                \<and> filter on_filter (calls run)
                    = (if Dimensionality filt < Dimensionality inp
                       then [ExpandDimensionality_filter (Dimensionality inp)] else [])
                      @ [Pad_filter (Sizes inp)]
                      @ (if filterRep = ''spatial'' then [FourierTransform_filter] else [])))"
proof (intro conjI impI)
  show "ConvolveFT IsReal inp filt inRep filterRep outRep = Inl SIZES_DONT_MATCH
          \<longleftrightarrow> Dimensionality inp < Dimensionality filt
              \<or> extent_exceeds (ExpandDimensionality (Sizes filt) (Dimensionality inp)) (Sizes inp)"
    unfolding ConvolveFT_failure ConvolveFT_size_check using assms by simp
next
  assume "\<not> (Dimensionality inp < Dimensionality filt
              \<or> extent_exceeds (ExpandDimensionality (Sizes filt) (Dimensionality inp)) (Sizes inp))"
  then have ok: "sizes_le (if Dimensionality filt < Dimensionality inp
             then ExpandDimensionality (Sizes filt) (Dimensionality inp) else Sizes filt) (Sizes inp)"
    unfolding ConvolveFT_size_check .
  show "\<exists>run. ConvolveFT IsReal inp filt inRep filterRep outRep = Inr run
                \<and> filter on_filter (calls run)
                    = (if Dimensionality filt < Dimensionality inp
                       then [ExpandDimensionality_filter (Dimensionality inp)] else [])
                      @ [Pad_filter (Sizes inp)]
                      @ (if filterRep = ''spatial'' then [FourierTransform_filter] else [])"
    unfolding ConvolveFT_success [OF assms ok] by simp
qed

theorem C9_size_check_and_padding_witness:
  "ConvolveFT (\<lambda>t. t \<noteq> DT_SCOMPLEX \<and> t \<noteq> DT_DCOMPLEX)
     \<lparr> IsForged = True, Sizes = [8, 6], DataTypeOf = DT_UINT16, Samples = (\<lambda>c. 0 :: real) \<rparr>
     \<lparr> IsForged = True, Sizes = [9], DataTypeOf = DT_DFLOAT, Samples = (\<lambda>c. 0 :: real) \<rparr>
     ''spatial'' ''spatial'' ''spatial''
   = Inl SIZES_DONT_MATCH
   \<and> (\<exists>run. ConvolveFT (\<lambda>t. t \<noteq> DT_SCOMPLEX \<and> t \<noteq> DT_DCOMPLEX)
       \<lparr> IsForged = True, Sizes = [8, 6], DataTypeOf = DT_UINT16, Samples = (\<lambda>c. 0 :: real) \<rparr>
       \<lparr> IsForged = True, Sizes = [3], DataTypeOf = DT_DFLOAT, Samples = (\<lambda>c. 0 :: real) \<rparr>
       ''spatial'' ''spatial'' ''frequency'' = Inr run
     \<and> filter on_filter (calls run)
         = [ExpandDimensionality_filter 2, Pad_filter [8, 6], FourierTransform_filter])"
proof -
  have a: "ConvolveFT (\<lambda>t. t \<noteq> DT_SCOMPLEX \<and> t \<noteq> DT_DCOMPLEX)
     \<lparr> IsForged = True, Sizes = [8, 6], DataTypeOf = DT_UINT16, Samples = (\<lambda>c. 0 :: real) \<rparr>
     \<lparr> IsForged = True, Sizes = [9], DataTypeOf = DT_DFLOAT, Samples = (\<lambda>c. 0 :: real) \<rparr>
     ''spatial'' ''spatial'' ''spatial''
   = Inl SIZES_DONT_MATCH"
    using C9_size_check_and_padding [of
      "\<lparr> IsForged = True, Sizes = [8, 6], DataTypeOf = DT_UINT16, Samples = (\<lambda>c. 0 :: real) \<rparr>"
      "\<lparr> IsForged = True, Sizes = [9], DataTypeOf = DT_DFLOAT, Samples = (\<lambda>c. 0 :: real) \<rparr>"
      "\<lambda>t. t \<noteq> DT_SCOMPLEX \<and> t \<noteq> DT_DCOMPLEX" "''spatial''" "''spatial''" "''spatial''"]
    by (simp add: Dimensionality_def ExpandDimensionality_def extent_exceeds_def)
  have b: "\<exists>run. ConvolveFT (\<lambda>t. t \<noteq> DT_SCOMPLEX \<and> t \<noteq> DT_DCOMPLEX)
       \<lparr> IsForged = True, Sizes = [8, 6], DataTypeOf = DT_UINT16, Samples = (\<lambda>c. 0 :: real) \<rparr>
       \<lparr> IsForged = True, Sizes = [3], DataTypeOf = DT_DFLOAT, Samples = (\<lambda>c. 0 :: real) \<rparr>
       ''spatial'' ''spatial'' ''frequency'' = Inr run
     \<and> filter on_filter (calls run)
         = [ExpandDimensionality_filter 2, Pad_filter [8, 6], FourierTransform_filter]"
    using C9_size_check_and_padding [of
      "\<lparr> IsForged = True, Sizes = [8, 6], DataTypeOf = DT_UINT16, Samples = (\<lambda>c. 0 :: real) \<rparr>"
      "\<lparr> IsForged = True, Sizes = [3], DataTypeOf = DT_DFLOAT, Samples = (\<lambda>c. 0 :: real) \<rparr>"
      "\<lambda>t. t \<noteq> DT_SCOMPLEX \<and> t \<noteq> DT_DCOMPLEX" "''spatial''" "''spatial''" "''frequency''"]
    by (simp add: Dimensionality_def ExpandDimensionality_def extent_exceeds_def numeral_2_eq_2)
  from a b show ?thesis by (rule conjI)
qed

text \<open>
  C10: \<open>ConvolveFT\<close> reads each representation string only by comparing it with
  "spatial": any other string gives the result that "frequency" gives. Whether
  the call fails, and with which error, does not depend on the three strings;
  the only errors are the not-forged and the size-mismatch error.
\<close>

theorem C10_representation_strings:
  "ConvolveFT IsReal inp filt r1 r2 r3
     = ConvolveFT IsReal inp filt (representation_read r1) (representation_read r2)
         (representation_read r3)
   \<and> (r1 \<noteq> ''spatial'' \<longrightarrow>
        ConvolveFT IsReal inp filt r1 r2 r3 = ConvolveFT IsReal inp filt ''frequency'' r2 r3)
   \<and> (r2 \<noteq> ''spatial'' \<longrightarrow>
        ConvolveFT IsReal inp filt r1 r2 r3 = ConvolveFT IsReal inp filt r1 ''frequency'' r3)
   \<and> (r3 \<noteq> ''spatial'' \<longrightarrow>
        ConvolveFT IsReal inp filt r1 r2 r3 = ConvolveFT IsReal inp filt r1 r2 ''frequency'')
   \<and> (ConvolveFT IsReal inp filt r1 r2 r3 = Inl e \<longleftrightarrow>
        ConvolveFT IsReal inp filt s1 s2 s3 = Inl e)
   \<and> (ConvolveFT IsReal inp filt r1 r2 r3 = Inl e \<longrightarrow>
        e = IMAGE_NOT_FORGED \<or> e = SIZES_DONT_MATCH)"
proof (intro conjI impI)
  show "ConvolveFT IsReal inp filt r1 r2 r3
     = ConvolveFT IsReal inp filt (representation_read r1) (representation_read r2)
         (representation_read r3)"
    by (simp add: ConvolveFT_def representation_read_def)
  show "ConvolveFT IsReal inp filt r1 r2 r3 = ConvolveFT IsReal inp filt ''frequency'' r2 r3"
    if "r1 \<noteq> ''spatial''" using that by (simp add: ConvolveFT_def)
  show "ConvolveFT IsReal inp filt r1 r2 r3 = ConvolveFT IsReal inp filt r1 ''frequency'' r3"
    if "r2 \<noteq> ''spatial''" using that by (simp add: ConvolveFT_def)
  show "ConvolveFT IsReal inp filt r1 r2 r3 = ConvolveFT IsReal inp filt r1 r2 ''frequency''"
    if "r3 \<noteq> ''spatial''" using that by (simp add: ConvolveFT_def)
  show "ConvolveFT IsReal inp filt r1 r2 r3 = Inl e \<longleftrightarrow>
        ConvolveFT IsReal inp filt s1 s2 s3 = Inl e"
    unfolding ConvolveFT_failure ..
  show "e = IMAGE_NOT_FORGED \<or> e = SIZES_DONT_MATCH"
    if "ConvolveFT IsReal inp filt r1 r2 r3 = Inl e"
    using that unfolding ConvolveFT_failure by blast
qed

theorem C10_representation_strings_witness:
  "ConvolveFT (\<lambda>t. t \<noteq> DT_SCOMPLEX \<and> t \<noteq> DT_DCOMPLEX)
     \<lparr> IsForged = True, Sizes = [8, 6], DataTypeOf = DT_UINT16, Samples = (\<lambda>c. 0 :: real) \<rparr>
     \<lparr> IsForged = True, Sizes = [3], DataTypeOf = DT_DFLOAT, Samples = (\<lambda>c. 0 :: real) \<rparr>
     ''Spatial'' ''spatial'' ''space''
   = Inr \<lparr> calls = [ExpandDimensionality_filter 2, Pad_filter [8, 6],
                     FourierTransform_filter, MultiplySampleWise],
           realFlag = False \<rparr>
   \<and> ConvolveFT (\<lambda>t. t \<noteq> DT_SCOMPLEX \<and> t \<noteq> DT_DCOMPLEX)
     \<lparr> IsForged = True, Sizes = [8, 6], DataTypeOf = DT_UINT16, Samples = (\<lambda>c. 0 :: real) \<rparr>
     \<lparr> IsForged = True, Sizes = [3], DataTypeOf = DT_DFLOAT, Samples = (\<lambda>c. 0 :: real) \<rparr>
     ''frequency'' ''spatial'' ''frequency''
   = Inr \<lparr> calls = [ExpandDimensionality_filter 2, Pad_filter [8, 6],
                     FourierTransform_filter, MultiplySampleWise],
           realFlag = False \<rparr>"
  using C10_representation_strings [of
     "\<lambda>t. t \<noteq> DT_SCOMPLEX \<and> t \<noteq> DT_DCOMPLEX"
     "\<lparr> IsForged = True, Sizes = [8, 6], DataTypeOf = DT_UINT16, Samples = (\<lambda>c. 0 :: real) \<rparr>"
     "\<lparr> IsForged = True, Sizes = [3], DataTypeOf = DT_DFLOAT, Samples = (\<lambda>c. 0 :: real) \<rparr>"
     "''Spatial''" "''spatial''" "''space''"]
  by (simp add: ConvolveFT_def Dimensionality_def ExpandDimensionality_def sizes_le_def
      representation_read_def)

section \<open>Claims about the general convolution\<close>

lemma weighted_loop_unit:
  fixes buf :: "int \<Rightarrow> 'a::real_vector"
  assumes "length ito \<le> n"
  shows "weighted_loop buf p ito (replicate n 1) acc = acc + sum_list (map (\<lambda>ofs. buf (p + ofs)) ito)"
  using assms
proof (induction ito arbitrary: n acc)
  case Nil
  then show ?case by simp
next
  case (Cons ofs ito)
  then obtain k where n: "n = Suc k" by (cases n) auto
  have "length ito \<le> k" using Cons.prems n by simp
  then show ?case unfolding n by (simp add: Cons.IH add.assoc)
qed

lemma GeneralFilter_unit:
  fixes buf :: "int \<Rightarrow> 'a::real_vector"
  shows "GeneralFilter buf s n \<lparr> Offsets = footprint, Weights = replicate (length footprint) 1 \<rparr>
       = Some (map (\<lambda>ii. sum_list (map (\<lambda>ofs. buf (int ii * s + ofs)) footprint)) [0..<n])"
  by (simp add: GeneralFilter_def line_loop_map weighted_loop_unit)

lemma UniformLine_map:
  fixes buf :: "int \<Rightarrow> 'a::real_vector"
  shows "UniformLine buf s n footprint
       = map (\<lambda>ii. scaleR (1 / real (length footprint))
                     (sum_list (map (\<lambda>ofs. buf (int ii * s + ofs)) footprint))) [0..<n]"
  by (simp add: UniformLine_def line_loop_map)

text \<open>
  C7, as stated: for a binary kernel the result of the fast path equals what the
  general weighted path computes for that kernel. This fails: on a footprint of
  two pixels over a constant line of ones, the weighted sum with the weights 1
  is 2 and the uniform filter gives the mean 1.
\<close>

theorem C7_uniform_is_not_weighted_sum_counterexample:
  "GeneralFilter (\<lambda>i. 1 :: real) 1 1 \<lparr> Offsets = [0, 1], Weights = [1, 1] \<rparr> = Some [2]
   \<and> UniformLine (\<lambda>i. 1 :: real) 1 1 [0, 1] = [1]"
  by (simp add: GeneralFilter_def UniformLine_def)

text \<open>
  C7, amended: for forged images and a kernel image of binary sample type,
  \<open>GeneralConvolution\<close> returns what the uniform filter returns on the input, the
  mirrored kernel and the boundary conditions, whatever the general path would
  do. On every line, the uniform filter's value (the unweighted neighborhood sum
  divided by the number \<open>N\<close> of pixels of the footprint) is \<open>1 / N\<close> times the
  value the general line filter computes over the same footprint with the
  weights 1.
\<close>

theorem C7_binary_kernel:
  fixes buf :: "int \<Rightarrow> 'a::real_vector"
  assumes "IsForged inp" and "IsForged c_filter" and "IsBinary (DataTypeOf c_filter)"
    and "footprint \<noteq> []"
  shows "GeneralConvolution IsBinary StringArrayToBoundaryConditionArray SuggestFlex Uniform Full
           inp c_filter boundaryCondition
         = Uniform inp (Mirror (KernelOf c_filter)) boundaryCondition
       \<and> (\<exists>out. GeneralFilter buf stride bufferLength
                   \<lparr> Offsets = footprint, Weights = replicate (length footprint) 1 \<rparr> = Some out
              \<and> UniformLine buf stride bufferLength footprint
                  = map (scaleR (1 / real (length footprint))) out)"
proof
  show "GeneralConvolution IsBinary StringArrayToBoundaryConditionArray SuggestFlex Uniform Full
           inp c_filter boundaryCondition
         = Uniform inp (Mirror (KernelOf c_filter)) boundaryCondition"
    using assms(1-3) by (simp add: GeneralConvolution_def)
  show "\<exists>out. GeneralFilter buf stride bufferLength
                   \<lparr> Offsets = footprint, Weights = replicate (length footprint) 1 \<rparr> = Some out
              \<and> UniformLine buf stride bufferLength footprint
                  = map (scaleR (1 / real (length footprint))) out"
    unfolding GeneralFilter_unit UniformLine_map by (simp add: o_def)
qed

theorem C7_binary_kernel_witness:
  "GeneralConvolution (\<lambda>t. t = DT_BIN) (\<lambda>s. Inr s) (\<lambda>t. DT_SFLOAT)
     (\<lambda>img k b. Inr (img \<lparr> DataTypeOf := DT_SFLOAT \<rparr>)) (\<lambda>img t b k. Inl ARRAY_ILLEGAL_SIZE)
     \<lparr> IsForged = True, Sizes = [8], DataTypeOf = DT_UINT16, Samples = (\<lambda>c. 0 :: real) \<rparr>
     \<lparr> IsForged = True, Sizes = [2], DataTypeOf = DT_BIN, Samples = (\<lambda>c. 1 :: real) \<rparr>
     [''periodic'']
   = Inr \<lparr> IsForged = True, Sizes = [8], DataTypeOf = DT_SFLOAT, Samples = (\<lambda>c. 0 :: real) \<rparr>
   \<and> GeneralFilter real_of_int 1 2 \<lparr> Offsets = [0, 1], Weights = [1, 1] \<rparr> = Some [1, 3]
   \<and> UniformLine real_of_int 1 2 [0, 1] = [1 / 2, 3 / 2]"
  using C7_binary_kernel [of
     "\<lparr> IsForged = True, Sizes = [8], DataTypeOf = DT_UINT16, Samples = (\<lambda>c. 0 :: real) \<rparr>"
     "\<lparr> IsForged = True, Sizes = [2], DataTypeOf = DT_BIN, Samples = (\<lambda>c. 1 :: real) \<rparr>"
     "\<lambda>t. t = DT_BIN" "[0, 1]" "\<lambda>s. Inr s" "\<lambda>t. DT_SFLOAT"
     "\<lambda>img k b. Inr (img \<lparr> DataTypeOf := DT_SFLOAT \<rparr>)" "\<lambda>img t b k. Inl ARRAY_ILLEGAL_SIZE"
     "[''periodic'']" real_of_int 1 2]
  by (simp add: GeneralFilter_def UniformLine_def numeral_2_eq_2)

end
